theory Spec2Isabelle
  imports Complex_Main "HOL-Library.Word"
begin

section \<open>Tensors\<close>

text \<open>
  The script \<^verbatim>\<open>keras_export/visualize_layers.py\<close> works on numpy arrays and Keras
  tensors of floating-point numbers. Floating-point values are idealised as reals: rounding,
  infinities and NaN are outside the model. A tensor of rank three is a nested list, outermost
  axis first; the batch axis of size one of \<^verbatim>\<open>input_img_data\<close> is dropped, so the
  ascent loop and \<^verbatim>\<open>deprocess_image\<close> share one tensor type.
\<close>

type_synonym tensor = "real list list list"

type_synonym image = "8 word list list list"

definition tmap :: "('a \<Rightarrow> 'b) \<Rightarrow> 'a list list list \<Rightarrow> 'b list list list" where
  "tmap f = map (map (map f))"

definition tflat :: "'a list list list \<Rightarrow> 'a list" where
  "tflat t = concat (concat t)"

text \<open>Elementwise combination of two arrays of one shape, as \<^verbatim>\<open>a + b\<close> in numpy.\<close>

definition tzip :: "(real \<Rightarrow> real \<Rightarrow> real) \<Rightarrow> tensor \<Rightarrow> tensor \<Rightarrow> tensor" where
  "tzip f = map2 (map2 (map2 f))"

text \<open>The shape of an array: every row has \<open>w\<close> entries and every entry \<open>c\<close> channels.\<close>

definition has_shape :: "nat \<Rightarrow> nat \<Rightarrow> nat \<Rightarrow> 'a list list list \<Rightarrow> bool" where
  "has_shape h w c t \<longleftrightarrow>
     length t = h \<and> (\<forall>row \<in> set t. length row = w \<and> (\<forall>px \<in> set row. length px = c))"

text \<open>
  \<^verbatim>\<open>x.mean()\<close> as the exact mean of the elements. The mean that numpy computes in
  doubles, with its rounding, is \<open>np_mean_float64\<close> below.
\<close>

definition np_mean :: "tensor \<Rightarrow> real" where
  "np_mean t = sum_list (tflat t) / real (length (tflat t))"

text \<open>\<^verbatim>\<open>x.std()\<close>: the population standard deviation over all elements.\<close>

definition np_std :: "tensor \<Rightarrow> real" where
  "np_std t = sqrt (np_mean (tmap (\<lambda>v. \<bar>v - np_mean t\<bar> ^ 2) t))"

definition np_clip :: "tensor \<Rightarrow> real \<Rightarrow> real \<Rightarrow> tensor" where
  "np_clip t lo hi = tmap (\<lambda>v. min (max v lo) hi) t"

text \<open>
  \<^verbatim>\<open>astype('uint8')\<close>: the fractional part is dropped (rounding toward zero) and the
  integer is stored in eight bits.
\<close>

definition astype_uint8 :: "real \<Rightarrow> 8 word" where
  "astype_uint8 v = word_of_int (if 0 \<le> v then \<lfloor>v\<rfloor> else \<lceil>v\<rceil>)"

text \<open>\<^verbatim>\<open>x.transpose((1, 2, 0))\<close>: axis 0 of the argument becomes the last axis.\<close>

definition transpose_120 :: "'a list list list \<Rightarrow> 'a list list list" where
  "transpose_120 t = map transpose (transpose t)"

section \<open>The backend\<close>

text \<open>
  \<^verbatim>\<open>K.epsilon()\<close> and \<^verbatim>\<open>K.image_data_format()\<close> are settings of the Keras backend,
  which is not part of the script: they are parameters of the functions that read them.
  \<open>K_epsilon_default\<close> is the value Keras ships with.
\<close>

datatype image_data_format = Channels_last | Channels_first

record backend =
  K_epsilon :: real
  K_image_data_format :: image_data_format

definition K_epsilon_default :: real where
  "K_epsilon_default = 1 / 10 ^ 7"

definition default_backend :: backend where
  "default_backend = \<lparr>K_epsilon = K_epsilon_default, K_image_data_format = Channels_last\<rparr>"

definition K_square :: "tensor \<Rightarrow> tensor" where
  "K_square t = tmap (\<lambda>v. v * v) t"

definition K_mean :: "tensor \<Rightarrow> real" where
  "K_mean t = sum_list (tflat t) / real (length (tflat t))"

text \<open>\<^verbatim>\<open>K.sqrt\<close> clips its argument to the non-negative numbers before taking the root.\<close>

definition K_sqrt :: "real \<Rightarrow> real" where
  "K_sqrt v = sqrt (max v 0)"

section \<open>The image postprocessor\<close>

text \<open>
  \<^verbatim>\<open>deprocess_image\<close>, lines 28 to 33: the four augmented assignments work in place,
  so their result is what the caller's array holds afterwards.
\<close>

definition deprocess_inplace :: "backend \<Rightarrow> tensor \<Rightarrow> tensor" where
  "deprocess_inplace K x0 =
     (let x1 = tmap (\<lambda>v. v - np_mean x0) x0;
          x2 = tmap (\<lambda>v. v / (np_std x1 + K_epsilon K)) x1;
          x3 = tmap (\<lambda>v. v * (1 / 10)) x2;
          x4 = tmap (\<lambda>v. v + 1 / 2) x3
      in x4)"

text \<open>
  Lines 34 to 40: \<^verbatim>\<open>x = np.clip(x, 0, 1)\<close> binds \<^verbatim>\<open>x\<close> to a new array, which the
  rest of the function works on.
\<close>

definition deprocess_fresh :: "backend \<Rightarrow> tensor \<Rightarrow> image" where
  "deprocess_fresh K x4 =
     (let x5 = np_clip x4 0 1;
          x6 = tmap (\<lambda>v. v * 255) x5;
          x7 = (if K_image_data_format K = Channels_first then transpose_120 x6 else x6)
      in tmap astype_uint8 (np_clip x7 0 255))"

text \<open>
  \<^verbatim>\<open>deprocess_image\<close>: the first component is the content of the argument array when
  the function returns, the second the returned image.
\<close>

definition deprocess_image :: "backend \<Rightarrow> tensor \<Rightarrow> tensor \<times> image" where
  "deprocess_image K x = (deprocess_inplace K x, deprocess_fresh K (deprocess_inplace K x))"

section \<open>The gradient normalizer\<close>

text \<open>
  \<^verbatim>\<open>normalize\<close> of the script; the name alone is taken by a constant of the library.
  Where the divisor is 0 the code returns nan or inf and the quotient of HOL is 0: what is
  proved about \<open>normalize_tensor\<close> is proved for a positive divisor.
\<close>

definition normalize_tensor :: "backend \<Rightarrow> tensor \<Rightarrow> tensor" where
  "normalize_tensor K x = tmap (\<lambda>v. v / (K_sqrt (K_mean (K_square x)) + K_epsilon K)) x"

section \<open>The ascent driver\<close>

text \<open>
  A Python string is a sequence of Unicode code points. A layer carries what the script
  reads from it: the name of its class, its name, the size of the last axis of its first
  weight array, and, for each filter index, the value at an input image of the loss
  \<^verbatim>\<open>K.mean(layer.output[:, :, :, filter_index])\<close> and of its gradient
  \<^verbatim>\<open>K.gradients(loss, input_img)[0]\<close>, both computed by the backend.
\<close>

type_synonym pystr = "nat list"

definition lit :: "string \<Rightarrow> pystr" where
  "lit s = map of_char s"

record layer =
  layer_type :: string
  layer_name :: pystr
  filter_cnt :: nat
  loss_at :: "nat \<Rightarrow> tensor \<Rightarrow> real"
  gradients_at :: "nat \<Rightarrow> tensor \<Rightarrow> tensor"

text \<open>
  What the script takes from its surroundings: the numbers drawn by
  \<^verbatim>\<open>np.random.random\<close>, the formatted readings of the clock, and the text that
  \<^verbatim>\<open>format\<close> gives for a loss value.
\<close>

record world =
  random_stream :: "nat \<Rightarrow> real"
  now_strftime :: "nat \<Rightarrow> pystr"
  str_float :: "real \<Rightarrow> pystr"

text \<open>
  The effects of a run: how many random numbers were drawn, how often the clock was read,
  how often the compiled function \<^verbatim>\<open>iterate\<close> was called, and the files written, in
  order. Console output is not modelled.
\<close>

record state =
  rng_pos :: nat
  clock_reads :: nat
  iterate_calls :: nat
  files :: "(pystr \<times> image) list"

definition np_random_random :: "(nat \<Rightarrow> real) \<Rightarrow> nat \<Rightarrow> nat \<times> nat \<times> nat \<Rightarrow> tensor" where
  "np_random_random r p shp =
     (case shp of (w, h, c) \<Rightarrow>
        map (\<lambda>i. map (\<lambda>j. map (\<lambda>k. r (p + (i * h + j) * c + k)) [0..<c]) [0..<h]) [0..<w])"

text \<open>\<^verbatim>\<open>iterate = K.function([input_img], [loss, grads])\<close> with the normalized gradient.\<close>

definition iterate :: "backend \<Rightarrow> layer \<Rightarrow> nat \<Rightarrow> tensor \<Rightarrow> real \<times> tensor" where
  "iterate K l filter_index x =
     (loss_at l filter_index x, normalize_tensor K (gradients_at l filter_index x))"

definition step :: real where
  "step = 1"

text \<open>
  The loop of lines 80 to 89 with \<open>n\<close> iterations left. It returns the input image at the
  exit of the loop and the values bound to \<^verbatim>\<open>loss_value\<close>, one for each iteration that
  ran, in order; the last of them is the value of \<^verbatim>\<open>loss_value\<close> after the loop.
\<close>

fun ascent :: "(tensor \<Rightarrow> real \<times> tensor) \<Rightarrow> nat \<Rightarrow> tensor \<Rightarrow> tensor \<times> real list" where
  "ascent it 0 input_img_data = (input_img_data, [])"
| "ascent it (Suc n) input_img_data =
     (case it input_img_data of (loss_value, grads_value) \<Rightarrow>
        (let input_img_data' = tzip (+) input_img_data (tmap (\<lambda>g. g * step) grads_value)
         in if loss_value \<le> 0 then (input_img_data', [loss_value])
            else (case ascent it n input_img_data' of
                    (final, losses) \<Rightarrow> (final, loss_value # losses))))"

text \<open>Lines 76 and 77: the gray start image with noise, drawn at position \<open>p\<close> of the stream.\<close>

definition random_start :: "world \<Rightarrow> nat \<Rightarrow> nat \<times> nat \<times> nat \<Rightarrow> tensor" where
  "random_start W p shp =
     tmap (\<lambda>v. (v - 1 / 2) * 20 + 128) (np_random_random (random_stream W) p shp)"

text \<open>The body of the loop over \<^verbatim>\<open>filter_index\<close>, lines 57 to 94.\<close>

definition process_filter ::
  "backend \<Rightarrow> world \<Rightarrow> layer \<Rightarrow> nat \<times> nat \<times> nat \<Rightarrow> nat \<Rightarrow>
   (image \<times> real) list \<times> state \<Rightarrow> (image \<times> real) list \<times> state" where
  "process_filter K W l shp filter_index acc =
     (case acc of (kept_filters, s) \<Rightarrow>
      (case shp of (img_width, img_height, img_chans) \<Rightarrow>
        (let input_img_data = random_start W (rng_pos s) shp;
             (final, losses) = ascent (iterate K l filter_index) 20 input_img_data;
             loss_value = last losses;
             s' = s\<lparr>rng_pos := rng_pos s + img_width * img_height * img_chans,
                    iterate_calls := iterate_calls s + length losses\<rparr>
         in if loss_value > 0
            then (kept_filters @ [(snd (deprocess_image K final), loss_value)], s')
            else (kept_filters, s'))))"

definition process_conv_2d_layer ::
  "backend \<Rightarrow> world \<Rightarrow> layer \<Rightarrow> nat \<times> nat \<times> nat \<Rightarrow> state \<Rightarrow> (image \<times> real) list \<times> state" where
  "process_conv_2d_layer K W l shp s =
     fold (process_filter K W l shp) [0..<filter_cnt l] ([], s)"

section \<open>The orchestrator\<close>

text \<open>\<^verbatim>\<open>some_string.encode('ascii')\<close> fails exactly on a code point above 127.\<close>

definition is_ascii :: "pystr \<Rightarrow> bool" where
  "is_ascii some_string = list_all (\<lambda>c. c < 128) some_string"

text \<open>The decimal digits that \<^verbatim>\<open>format\<close> writes for a non-negative integer.\<close>

fun str_nat :: "nat \<Rightarrow> pystr" where
  "str_nat n = (if n < 10 then [48 + n] else str_nat (n div 10) @ [48 + n mod 10])"

declare str_nat.simps [simp del]

text \<open>\<^verbatim>\<open>'{}/{}_{}_{}_{}.png'.format(out_dir, date_time_str, name, i, loss)\<close>\<close>

definition file_name :: "pystr \<Rightarrow> pystr \<Rightarrow> pystr \<Rightarrow> nat \<Rightarrow> pystr \<Rightarrow> pystr" where
  "file_name out_dir date_time_str name i loss =
     out_dir @ lit ''/'' @ date_time_str @ lit ''_'' @ name @ lit ''_'' @ str_nat i
       @ lit ''_'' @ loss @ lit ''.png''"

text \<open>
  One pass of the loop of lines 130 to 134. \<^verbatim>\<open>np.squeeze\<close> only drops axes of length
  one; the file keeps the image's elements as they are.
\<close>

definition save_image :: "world \<Rightarrow> pystr \<Rightarrow> pystr \<Rightarrow> nat \<times> image \<times> real \<Rightarrow> state \<Rightarrow> state" where
  "save_image W out_dir name entry s =
     (case entry of (i, img, loss) \<Rightarrow>
        (let date_time_str = now_strftime W (clock_reads s)
         in s\<lparr>clock_reads := clock_reads s + 1,
               files := files s @
                 [(file_name out_dir date_time_str name i (str_float W loss), img)]\<rparr>))"

definition save_images ::
  "world \<Rightarrow> pystr \<Rightarrow> pystr \<Rightarrow> (image \<times> real) list \<Rightarrow> state \<Rightarrow> state" where
  "save_images W out_dir name images_with_loss s =
     fold (save_image W out_dir name) (enumerate 0 images_with_loss) s"

datatype error = AssertionError | TypeError

text \<open>
  The loop of \<^verbatim>\<open>process_layers\<close> over the layers still to visit. An exception ends
  the run and leaves the effects of the layers before it. The call on line 123 passes one
  argument to a function of two, which raises \<^verbatim>\<open>TypeError\<close>. The returned dictionary
  is always empty and is left out.
\<close>

fun process_layers_loop ::
  "backend \<Rightarrow> world \<Rightarrow> nat \<times> nat \<times> nat \<Rightarrow> pystr \<Rightarrow> layer list \<Rightarrow> state \<Rightarrow>
   error option \<times> state" where
  "process_layers_loop K W shp out_dir [] s = (None, s)"
| "process_layers_loop K W shp out_dir (l # ls) s =
     (if layer_type l = ''Model'' \<or> layer_type l = ''Sequential'' then (Some TypeError, s)
      else if \<not> is_ascii (layer_name l) then (Some AssertionError, s)
      else if layer_type l = ''Conv2D'' then
        (case process_conv_2d_layer K W l shp s of
           (images_with_loss, s') \<Rightarrow>
             process_layers_loop K W shp out_dir ls
               (save_images W out_dir (layer_name l) images_with_loss s'))
      else process_layers_loop K W shp out_dir ls s)"

text \<open>A model: its layers and the height, width and channels of \<^verbatim>\<open>model.input\<close>.\<close>

record model =
  layers :: "layer list"
  input_shape :: "nat \<times> nat \<times> nat"

definition process_layers :: "backend \<Rightarrow> world \<Rightarrow> model \<Rightarrow> pystr \<Rightarrow> state \<Rightarrow> error option \<times> state" where
  "process_layers K W m out_dir s =
     process_layers_loop K W (input_shape m) out_dir (layers m) s"

section \<open>Auxiliary notions and example data\<close>

text \<open>One pass of the ascent loop seen as a function on the input image (line 82).\<close>

definition update :: "(tensor \<Rightarrow> real \<times> tensor) \<Rightarrow> tensor \<Rightarrow> tensor" where
  "update it x = tzip (+) x (tmap (\<lambda>g. g * step) (snd (it x)))"

text \<open>
  A convolution layer with linear activation on an input of one pixel and one channel: the
  activation of filter 0 is the negated input, the activation of the other filter is the
  constant 1. A world whose random numbers are all one half, and the state before a run.
\<close>

definition linear_layer :: layer where
  "linear_layer =
     \<lparr>layer_type = ''Conv2D'', layer_name = lit ''conv'', filter_cnt = 2,
      loss_at = (\<lambda>filter_index x. if filter_index = 0 then - K_mean x else 1),
      gradients_at = (\<lambda>filter_index x.
         tmap (\<lambda>v. if filter_index = 0 then - 1 / real (length (tflat x)) else 0) x)\<rparr>"

definition example_world :: world where
  "example_world =
     \<lparr>random_stream = (\<lambda>k. 1 / 2),
      now_strftime = (\<lambda>k. lit ''2017-01-01_00_00_00_00000'' @ str_nat k),
      str_float = (\<lambda>v. str_nat (nat \<lfloor>v\<rfloor>) @ lit ''.0'')\<rparr>"

definition state0 :: state where
  "state0 = \<lparr>rng_pos = 0, clock_reads = 0, iterate_calls = 0, files = []\<rparr>"

text \<open>
  The contract of \<^verbatim>\<open>normalize\<close> as its description words it: the tensor divided by
  the root of the mean of its squares plus a constant.
\<close>

definition rms :: "tensor \<Rightarrow> real" where
  "rms t = sqrt (sum_list (map (\<lambda>v. v\<^sup>2) (tflat t)) / real (length (tflat t)))"

definition normalize_spec :: "real \<Rightarrow> tensor \<Rightarrow> tensor" where
  "normalize_spec eps t = tmap (\<lambda>v. v / (rms t + eps)) t"



text \<open>
  A copy of the example layer whose name ends in the letter e with an acute accent, and three
  models on an input of one pixel: the example layer alone, the accented layer alone, and the
  example layer followed by the accented one.
\<close>

definition accented_layer :: layer where
  "accented_layer = linear_layer\<lparr>layer_name := lit ''caf'' @ [233]\<rparr>"

definition conv_model :: model where
  "conv_model = \<lparr>layers = [linear_layer], input_shape = (1, 1, 1)\<rparr>"

definition accented_only_model :: model where
  "accented_only_model = \<lparr>layers = [accented_layer], input_shape = (1, 1, 1)\<rparr>"

definition accented_model :: model where
  "accented_model = \<lparr>layers = [linear_layer, accented_layer], input_shape = (1, 1, 1)\<rparr>"

text \<open>
  The file that the pass of the loop of lines 130 to 134 for one entry of
  \<^verbatim>\<open>enumerate(images_with_loss)\<close> writes, when the clock had been read \<open>c\<close> times
  before the loop.
\<close>

definition file_entry :: "world \<Rightarrow> pystr \<Rightarrow> pystr \<Rightarrow> nat \<Rightarrow> nat \<times> image \<times> real \<Rightarrow> pystr \<times> image" where
  "file_entry W out_dir name c entry =
     (case entry of (i, img, loss) \<Rightarrow>
        (file_name out_dir (now_strftime W (c + i)) name i (str_float W loss), img))"

text \<open>
  The filters of a layer are processed in the order of their indices, each from the state
  that the filters before it have left. \<open>filter_start\<close> is the state in which filter \<open>f\<close>
  starts, \<open>filter_outcome\<close> what the pass of the loop of lines 54 to 94 for filter \<open>f\<close>
  appends to \<^verbatim>\<open>kept_filters\<close> (nothing or one pair), and \<open>kept_before\<close> the number
  of filters with an index below \<open>f\<close> that are kept.
\<close>

definition filter_start ::
  "backend \<Rightarrow> world \<Rightarrow> layer \<Rightarrow> nat \<times> nat \<times> nat \<Rightarrow> state \<Rightarrow> nat \<Rightarrow> state" where
  "filter_start K W l shp s f = snd (fold (process_filter K W l shp) [0..<f] ([], s))"

definition filter_outcome ::
  "backend \<Rightarrow> world \<Rightarrow> layer \<Rightarrow> nat \<times> nat \<times> nat \<Rightarrow> state \<Rightarrow> nat \<Rightarrow> (image \<times> real) list" where
  "filter_outcome K W l shp s f
     = fst (process_filter K W l shp f ([], filter_start K W l shp s f))"

definition kept_before ::
  "backend \<Rightarrow> world \<Rightarrow> layer \<Rightarrow> nat \<times> nat \<times> nat \<Rightarrow> state \<Rightarrow> nat \<Rightarrow> nat" where
  "kept_before K W l shp s f
     = length (filter (\<lambda>g. filter_outcome K W l shp s g \<noteq> []) [0..<f])"

text \<open>
  Arithmetic of the machine. A numpy array of type \<^verbatim>\<open>float64\<close> holds IEEE doubles, and
  the reductions \<^verbatim>\<open>x.mean()\<close> and \<^verbatim>\<open>x.std()\<close> round after every operation.
  \<open>float64\<close> rounds a real to the nearest number with a significand of 53 bits, a tie to
  the even significand; the range of the exponent is not bounded, so overflow and
  subnormal numbers are left out. \<open>exponent x\<close> is the integer \<open>e\<close> with
  \<open>2 powi e \<le> \<bar>x\<bar>\<close> and \<open>\<bar>x\<bar> < 2 powi (e + 1)\<close>.
\<close>

fun bit_length :: "nat \<Rightarrow> nat" where
  "bit_length n = (if n = 0 then 0 else Suc (bit_length (n div 2)))"

declare bit_length.simps [simp del]

definition exponent :: "real \<Rightarrow> int" where
  "exponent x =
     (if 1 \<le> \<bar>x\<bar> then int (bit_length (nat \<lfloor>\<bar>x\<bar>\<rfloor>)) - 1
      else - int (bit_length (nat (\<lceil>1 / \<bar>x\<bar>\<rceil> - 1))))"

definition round_half_even :: "real \<Rightarrow> int" where
  "round_half_even x =
     (if x - of_int \<lfloor>x\<rfloor> < 1 / 2 then \<lfloor>x\<rfloor>
      else if 1 / 2 < x - of_int \<lfloor>x\<rfloor> then \<lfloor>x\<rfloor> + 1
      else if even \<lfloor>x\<rfloor> then \<lfloor>x\<rfloor> else \<lfloor>x\<rfloor> + 1)"

definition float64 :: "real \<Rightarrow> real" where
  "float64 x =
     (if x = 0 then 0
      else of_int (round_half_even (x * 2 powi (52 - exponent x))) * 2 powi (exponent x - 52))"

text \<open>
  \<^verbatim>\<open>x.mean()\<close> and \<^verbatim>\<open>x.std()\<close> in doubles: the sum of the elements in order, each
  addition rounded, divided by their number; the root of the mean of the squared distances
  from the mean. numpy adds the elements in order when there are fewer than eight of them
  and in blocks otherwise; \<open>add_reduce_float64\<close> is the sum in order.
\<close>

definition add_reduce_float64 :: "real list \<Rightarrow> real" where
  "add_reduce_float64 xs = foldl (\<lambda>acc v. float64 (acc + v)) 0 xs"

definition np_mean_float64 :: "tensor \<Rightarrow> real" where
  "np_mean_float64 t = float64 (add_reduce_float64 (tflat t) / real (length (tflat t)))"

definition np_std_float64 :: "tensor \<Rightarrow> real" where
  "np_std_float64 t =
     float64 (sqrt (np_mean_float64
       (tmap (\<lambda>v. float64 (float64 (v - np_mean_float64 t) * float64 (v - np_mean_float64 t))) t)))"

text \<open>
  Lines 28 to 33 of \<^verbatim>\<open>deprocess_image\<close> with the two reductions as parameters, so that
  the same lines can be read with exact reductions (\<open>np_mean\<close>, \<open>np_std\<close>) and with
  rounded ones; the elementwise operations are exact in both readings.
  \<open>deprocess_divisor\<close> is the value of \<^verbatim>\<open>x.std() + K.epsilon()\<close> on line 29.
\<close>

definition deprocess_divisor ::
  "(tensor \<Rightarrow> real) \<Rightarrow> (tensor \<Rightarrow> real) \<Rightarrow> backend \<Rightarrow> tensor \<Rightarrow> real" where
  "deprocess_divisor mean std K x0 = std (tmap (\<lambda>v. v - mean x0) x0) + K_epsilon K"

definition deprocess_inplace_with ::
  "(tensor \<Rightarrow> real) \<Rightarrow> (tensor \<Rightarrow> real) \<Rightarrow> backend \<Rightarrow> tensor \<Rightarrow> tensor" where
  "deprocess_inplace_with mean std K x0 =
     (let x1 = tmap (\<lambda>v. v - mean x0) x0;
          x2 = tmap (\<lambda>v. v / (std x1 + K_epsilon K)) x1;
          x3 = tmap (\<lambda>v. v * (1 / 10)) x2;
          x4 = tmap (\<lambda>v. v + 1 / 2) x3
      in x4)"

definition deprocess_image_with ::
  "(tensor \<Rightarrow> real) \<Rightarrow> (tensor \<Rightarrow> real) \<Rightarrow> backend \<Rightarrow> tensor \<Rightarrow> tensor \<times> image" where
  "deprocess_image_with mean std K x =
     (deprocess_inplace_with mean std K x,
      deprocess_fresh K (deprocess_inplace_with mean std K x))"

section \<open>The ascent loop\<close>

lemma ascent_Suc:
  "ascent it (Suc n) x =
     (if fst (it x) \<le> 0 then (update it x, [fst (it x)])
      else (fst (ascent it n (update it x)), fst (it x) # snd (ascent it n (update it x))))"
  by (simp add: update_def Let_def split: prod.splits)

lemmas [simp del] = ascent.simps(2)

lemma ascent_length_le: "length (snd (ascent it n x)) \<le> n"
  by (induction n arbitrary: x) (auto simp: ascent_Suc)

lemma ascent_nonempty: "0 < n \<Longrightarrow> snd (ascent it n x) \<noteq> []"
  by (cases n) (auto simp: ascent_Suc)

lemma ascent_butlast_pos: "v \<in> set (butlast (snd (ascent it n x))) \<Longrightarrow> 0 < v"
  by (induction n arbitrary: x) (auto simp: ascent_Suc split: if_splits)

lemma ascent_short_last: "length (snd (ascent it n x)) < n \<Longrightarrow> last (snd (ascent it n x)) \<le> 0"
proof (induction n arbitrary: x)
  case 0 then show ?case by simp
next
  case (Suc n)
  show ?case
  proof (cases "fst (it x) \<le> 0")
    case True then show ?thesis by (simp add: ascent_Suc)
  next
    case False
    with Suc.prems have lt: "length (snd (ascent it n (update it x))) < n"
      by (simp add: ascent_Suc)
    then have "snd (ascent it n (update it x)) \<noteq> []"
      using ascent_nonempty[of n it "update it x"] by simp
    with False Suc.IH[OF lt] show ?thesis by (simp add: ascent_Suc)
  qed
qed

lemma ascent_all_pos_full:
  "\<forall>v \<in> set (snd (ascent it n x)). 0 < v \<Longrightarrow> length (snd (ascent it n x)) = n"
  by (induction n arbitrary: x) (auto simp: ascent_Suc split: if_splits)

lemma ascent_final: "fst (ascent it n x) = (update it ^^ length (snd (ascent it n x))) x"
  by (induction n arbitrary: x) (auto simp: ascent_Suc funpow_swap1)

lemma ascent_losses:
  "k < length (snd (ascent it n x)) \<Longrightarrow> snd (ascent it n x) ! k = fst (it ((update it ^^ k) x))"
proof (induction n arbitrary: x k)
  case 0 then show ?case by simp
next
  case (Suc n)
  show ?case
  proof (cases k)
    case 0 then show ?thesis by (auto simp: ascent_Suc)
  next
    case (Suc j)
    with Suc.prems Suc.IH[of j "update it x"] show ?thesis
      by (auto simp: ascent_Suc funpow_swap1 split: if_splits)
  qed
qed

lemma in_butlast_or_last: "v \<in> set xs \<Longrightarrow> v \<in> set (butlast xs) \<or> v = last xs"
  by (induction xs) (auto split: if_splits)

lemma ascent_nonpos_last:
  assumes "v \<in> set (snd (ascent it n x))" "v \<le> 0"
  shows "last (snd (ascent it n x)) \<le> 0"
proof -
  have "v \<notin> set (butlast (snd (ascent it n x)))"
    using ascent_butlast_pos [of v it n x] assms(2) by auto
  with in_butlast_or_last [OF assms(1)] have "v = last (snd (ascent it n x))"
    by simp
  with assms(2) show ?thesis by simp
qed

lemma random_start_example: "random_start example_world p (1, 1, 1) = [[[128]]]"
  by (simp add: random_start_def np_random_random_def example_world_def tmap_def)

lemma normalize_zero_px: "normalize_tensor default_backend [[[0]]] = [[[0]]]"
  by (simp add: normalize_tensor_def tmap_def)

lemma iterate_live: "iterate default_backend linear_layer (Suc 0) [[[v]]] = (1, [[[0]]])"
  by (simp add: iterate_def linear_layer_def normalize_zero_px tmap_def)

lemma update_live: "update (iterate default_backend linear_layer (Suc 0)) [[[v]]] = [[[v]]]"
  by (simp add: update_def iterate_live tzip_def tmap_def)

lemma ascent_fixpoint:
  "fst (it x) = c \<Longrightarrow> 0 < c \<Longrightarrow> update it x = x \<Longrightarrow> ascent it n x = (x, replicate n c)"
  by (induction n) (simp_all add: ascent_Suc)

lemma ascent_nonpos_first:
  "fst (it x) \<le> 0 \<Longrightarrow> 0 < n \<Longrightarrow> ascent it n x = (update it x, [fst (it x)])"
  by (cases n) (simp_all add: ascent_Suc)

lemma ascent_live:
  "ascent (iterate default_backend linear_layer (Suc 0)) 20 [[[128]]] = ([[[128]]], replicate 20 1)"
  by (rule ascent_fixpoint [where c = 1]) (simp_all add: iterate_live update_live)

lemma iterate_dead:
  "iterate default_backend linear_layer 0 [[[128]]] = (- 128, [[[- (10000000 / 10000001)]]])"
  by (simp add: iterate_def linear_layer_def normalize_tensor_def K_mean_def K_square_def K_sqrt_def
      tmap_def tflat_def default_backend_def K_epsilon_default_def)

lemma ascent_dead:
  "ascent (iterate default_backend linear_layer 0) 20 [[[128]]]
     = ([[[128 - 10000000 / 10000001]]], [- 128])"
  by (simp add: ascent_nonpos_first iterate_dead update_def tzip_def tmap_def step_def)

lemma process_filter_calls:
  "iterate_calls (snd (process_filter K W l shp filter_index (kept, s)))
     = iterate_calls s
       + length (snd (ascent (iterate K l filter_index) 20 (random_start W (rng_pos s) shp)))"
  by (simp add: process_filter_def Let_def split: prod.splits)

lemma ascent_last_loss:
  assumes "0 < n"
  shows "\<exists>k. length (snd (ascent it n x)) = Suc k \<and>
             last (snd (ascent it n x)) = fst (it ((update it ^^ k) x))"
proof -
  let ?ls = "snd (ascent it n x)"
  have ne: "?ls \<noteq> []" using assms by (rule ascent_nonempty)
  then obtain k where k: "length ?ls = Suc k" by (cases ?ls) auto
  then have "k < length ?ls" by simp
  then have "?ls ! k = fst (it ((update it ^^ k) x))" by (rule ascent_losses)
  moreover have "last ?ls = ?ls ! k" using ne k by (simp add: last_conv_nth)
  ultimately show ?thesis using k by auto
qed

lemma funpow_update_live:
  "(update (iterate default_backend linear_layer (Suc 0)) ^^ k) [[[v]]] = [[[v]]]"
  by (induction k) (simp_all add: update_live)

text \<open>
  Claim C5. For every filter the driver calls \<^verbatim>\<open>iterate\<close> at least once and at most 20
  times, once in each iteration of the ascent loop. It runs exactly 20 iterations when every
  loss it evaluates is strictly positive, and fewer than 20 only when the loss evaluated in
  its last iteration is less than or equal to 0.
\<close>

theorem filter_iterations_bounded:
  assumes "it = iterate K l filter_index" and "x0 = random_start W (rng_pos s) shp"
    and "s' = snd (process_filter K W l shp filter_index (kept, s))"
  shows "iterate_calls s < iterate_calls s' \<and> iterate_calls s' \<le> iterate_calls s + 20 \<and>
         ((\<forall>k. iterate_calls s + k < iterate_calls s' \<longrightarrow> 0 < fst (it ((update it ^^ k) x0)))
            \<longrightarrow> iterate_calls s' = iterate_calls s + 20) \<and>
         (iterate_calls s' < iterate_calls s + 20 \<longrightarrow>
            (\<exists>k. iterate_calls s' = iterate_calls s + Suc k \<and>
                 fst (it ((update it ^^ k) x0)) \<le> 0))"
proof -
  let ?ls = "snd (ascent it 20 x0)"
  have c: "iterate_calls s' = iterate_calls s + length ?ls"
    unfolding assms by (rule process_filter_calls)
  obtain k where k: "length ?ls = Suc k" "last ?ls = fst (it ((update it ^^ k) x0))"
    using ascent_last_loss [of 20 it x0] by auto
  have le: "length ?ls \<le> 20" by (rule ascent_length_le)
  have short: "fst (it ((update it ^^ k) x0)) \<le> 0" if "length ?ls < 20"
    using ascent_short_last [OF that] k(2) by simp
  have full: "length ?ls = 20"
    if "\<forall>j. iterate_calls s + j < iterate_calls s' \<longrightarrow> 0 < fst (it ((update it ^^ j) x0))"
  proof (rule ccontr)
    assume "length ?ls \<noteq> 20"
    with le have "length ?ls < 20" by simp
    then have "fst (it ((update it ^^ k) x0)) \<le> 0" by (rule short)
    moreover have "0 < fst (it ((update it ^^ k) x0))" using that c k(1) by simp
    ultimately show False by simp
  qed
  from c k(1) le short full show ?thesis by auto
qed

theorem filter_iterations_bounded_witness:
  "iterate_calls (snd (process_filter default_backend example_world linear_layer (1, 1, 1) (Suc 0)
      ([], state0))) = iterate_calls state0 + 20 \<and>
   iterate_calls (snd (process_filter default_backend example_world linear_layer (1, 1, 1) 0
      ([], state0))) < iterate_calls state0 + 20 \<and>
   (\<exists>k. iterate_calls (snd (process_filter default_backend example_world linear_layer (1, 1, 1) 0
           ([], state0))) = iterate_calls state0 + Suc k \<and>
        fst (iterate default_backend linear_layer 0
              ((update (iterate default_backend linear_layer 0) ^^ k)
                 (random_start example_world (rng_pos state0) (1, 1, 1)))) \<le> 0)"
proof -
  have pos: "\<forall>k. iterate_calls state0 + k
        < iterate_calls (snd (process_filter default_backend example_world linear_layer (1, 1, 1)
            (Suc 0) ([], state0))) \<longrightarrow>
      0 < fst (iterate default_backend linear_layer (Suc 0)
            ((update (iterate default_backend linear_layer (Suc 0)) ^^ k)
               (random_start example_world (rng_pos state0) (1, 1, 1))))"
    by (simp only: random_start_example funpow_update_live iterate_live fst_conv) simp
  have few: "iterate_calls (snd (process_filter default_backend example_world linear_layer
      (1, 1, 1) 0 ([], state0))) < iterate_calls state0 + 20"
    by (simp only: process_filter_calls random_start_example ascent_dead snd_conv) simp
  from pos few
    filter_iterations_bounded [where K = default_backend and l = linear_layer
      and filter_index = "Suc 0" and W = example_world and s = state0 and shp = "(1, 1, 1)"
      and kept = "[]", OF refl refl refl]
    filter_iterations_bounded [where K = default_backend and l = linear_layer
      and filter_index = 0 and W = example_world and s = state0 and shp = "(1, 1, 1)"
      and kept = "[]", OF refl refl refl]
  show ?thesis by blast
qed

text \<open>
  Claim C1. A filter contributes a result exactly when the last evaluated loss is strictly
  positive, and the result carries that loss; a filter with an evaluated loss less than or
  equal to 0 at any step contributes nothing.
\<close>

theorem filter_result_iff_last_loss_positive:
  assumes "ascent (iterate K l filter_index) 20 (random_start W (rng_pos s) shp) = (final, losses)"
  shows "(0 < last losses \<longrightarrow>
            fst (process_filter K W l shp filter_index (kept, s))
              = kept @ [(snd (deprocess_image K final), last losses)]) \<and>
         (\<not> 0 < last losses \<longrightarrow> fst (process_filter K W l shp filter_index (kept, s)) = kept) \<and>
         ((\<exists>v \<in> set losses. v \<le> 0) \<longrightarrow>
            fst (process_filter K W l shp filter_index (kept, s)) = kept)"
proof -
  have ls: "losses = snd (ascent (iterate K l filter_index) 20 (random_start W (rng_pos s) shp))"
    using assms by simp
  have "(\<exists>v \<in> set losses. v \<le> 0) \<Longrightarrow> \<not> 0 < last losses"
    unfolding ls using ascent_nonpos_last by fastforce
  then show ?thesis
    using assms by (auto simp: process_filter_def Let_def split: prod.splits)
qed

theorem filter_result_iff_last_loss_positive_witness:
  "0 < last (replicate 20 (1::real)) \<and>
   fst (process_filter default_backend example_world linear_layer (1, 1, 1) (Suc 0) ([], state0))
     = [(snd (deprocess_image default_backend [[[128]]]), last (replicate 20 1))] \<and>
   (\<exists>v \<in> set [- 128 :: real]. v \<le> 0) \<and>
   fst (process_filter default_backend example_world linear_layer (1, 1, 1) 0 ([], state0)) = []"
proof -
  have live: "ascent (iterate default_backend linear_layer (Suc 0)) 20
      (random_start example_world (rng_pos state0) (1, 1, 1)) = ([[[128]]], replicate 20 1)"
    by (simp only: random_start_example ascent_live)
  have dead: "ascent (iterate default_backend linear_layer 0) 20
      (random_start example_world (rng_pos state0) (1, 1, 1))
        = ([[[128 - 10000000 / 10000001]]], [- 128])"
    by (simp only: random_start_example ascent_dead)
  have pos: "0 < last (replicate 20 (1::real))" by simp
  have neg: "\<exists>v \<in> set [- 128 :: real]. v \<le> 0" by simp
  from pos neg
    filter_result_iff_last_loss_positive [OF live, of "[]"]
    filter_result_iff_last_loss_positive [OF dead, of "[]"]
  show ?thesis by simp
qed

lemma ascent_first_nonpos_is_last:
  assumes "k < length (snd (ascent it n x))" "snd (ascent it n x) ! k \<le> 0"
  shows "length (snd (ascent it n x)) = Suc k"
proof (rule ccontr)
  let ?ls = "snd (ascent it n x)"
  assume "length ?ls \<noteq> Suc k"
  with assms(1) have lt: "k < length (butlast ?ls)" by simp
  then have "butlast ?ls ! k \<in> set (butlast ?ls)" by (rule nth_mem)
  moreover have "butlast ?ls ! k = ?ls ! k" using lt by (rule nth_butlast)
  ultimately have "0 < ?ls ! k" using ascent_butlast_pos [of "?ls ! k" it n x] by simp
  with assms(2) show False by simp
qed

text \<open>
  Claim C3, as the code has it. The gradient update of line 82 comes before the test of line
  85: an iteration whose evaluated loss is less than or equal to 0 is the last one, and the
  input image at the exit of the loop is the image at which that loss was evaluated with
  the update of that iteration applied.
\<close>

theorem ascent_stops_after_update:
  assumes "ascent it n x = (final, losses)"
    and "k < length losses" and "losses ! k \<le> 0"
  shows "length losses = Suc k \<and>
         losses ! k = fst (it ((update it ^^ k) x)) \<and>
         final = update it ((update it ^^ k) x)"
proof -
  have ls: "losses = snd (ascent it n x)" and fin: "final = fst (ascent it n x)"
    using assms(1) by simp_all
  have len: "length losses = Suc k"
    using assms(2,3) unfolding ls by (rule ascent_first_nonpos_is_last)
  have nth: "losses ! k = fst (it ((update it ^^ k) x))"
    using assms(2) unfolding ls by (rule ascent_losses)
  have "final = (update it ^^ length losses) x"
    unfolding fin ls by (rule ascent_final)
  with len have "final = update it ((update it ^^ k) x)" by simp
  with len nth show ?thesis by simp
qed

theorem ascent_stops_after_update_witness:
  "[- 128 :: real] ! 0 \<le> 0 \<and>
   [[[128 - 10000000 / 10000001]]]
     = update (iterate default_backend linear_layer 0)
         ((update (iterate default_backend linear_layer 0) ^^ 0) [[[128]]])"
proof -
  have le: "[- 128 :: real] ! 0 \<le> 0" by simp
  have lt: "0 < length [- 128 :: real]" by simp
  from le ascent_stops_after_update [OF ascent_dead lt le] show ?thesis by simp
qed

text \<open>
  Claim C3 as stated says that the input image of a skipped filter is the image at which the
  non-positive loss was evaluated. For filter 0 of the example layer the loss at the start
  image is negative and the image has moved.
\<close>

theorem early_stop_keeps_input_counterexample:
  "fst (iterate default_backend linear_layer 0 [[[128]]]) \<le> 0 \<and>
   snd (ascent (iterate default_backend linear_layer 0) 20 [[[128]]]) = [- 128] \<and>
   fst (ascent (iterate default_backend linear_layer 0) 20 [[[128]]]) \<noteq> [[[128]]]"
  by (simp add: ascent_dead iterate_dead)

section \<open>The image postprocessor: shape and range\<close>

lemma tflat_tmap: "tflat (tmap f t) = map f (tflat t)"
  by (simp add: tflat_def tmap_def map_concat)

lemma tmap_tmap: "tmap f (tmap g t) = tmap (\<lambda>v. f (g v)) t"
  by (simp add: tmap_def comp_def)

lemma has_shape_tmap: "has_shape h w c (tmap f t) \<longleftrightarrow> has_shape h w c t"
  by (auto simp: has_shape_def tmap_def)

lemma tmap_cong_elems: "(\<And>v. v \<in> set (tflat t) \<Longrightarrow> f v = g v) \<Longrightarrow> tmap f t = tmap g t"
  by (auto simp: tmap_def tflat_def)

lemma tmap_ident_iff: "tmap f t = t \<longleftrightarrow> (\<forall>v \<in> set (tflat t). f v = v)"
proof -
  have "tmap f t = t \<longleftrightarrow> (\<forall>row \<in> set t. \<forall>px \<in> set row. \<forall>v \<in> set px. f v = v)"
    unfolding tmap_def by (simp add: map_idI map_eq_conv [where g = "\<lambda>x. x", simplified])
  then show ?thesis by (auto simp: tflat_def)
qed

lemma clip_unit_scaled: "0 \<le> min (max v 0) 1 * 255 \<and> min (max v 0) 1 * (255::real) \<le> 255"
  by (simp add: min_def max_def)

lemma quantize_clipped:
  "astype_uint8 (min (max (min (max v 0) 1 * 255) 0) 255) = word_of_int \<lfloor>min (max v 0) 1 * 255\<rfloor>"
  using clip_unit_scaled [of v] by (simp add: astype_uint8_def min_def max_def)

lemma quantize_scaled:
  "astype_uint8 (min (max v 0) 1 * 255) = word_of_int \<lfloor>min (max v 0) 1 * 255\<rfloor>"
  using clip_unit_scaled [of v] by (simp add: astype_uint8_def)

lemma floor_byte_range: "0 \<le> \<lfloor>min (max v 0) 1 * (255::real)\<rfloor> \<and> \<lfloor>min (max v 0) 1 * (255::real)\<rfloor> \<le> 255"
proof -
  have "\<lfloor>min (max v 0) 1 * (255::real)\<rfloor> \<le> \<lfloor>255::real\<rfloor>"
    using clip_unit_scaled [of v] by (intro floor_mono) simp
  moreover have "0 \<le> \<lfloor>min (max v 0) 1 * (255::real)\<rfloor>"
    using clip_unit_scaled [of v] by simp
  ultimately show ?thesis by simp
qed

lemma uint_quantize:
  "uint (word_of_int \<lfloor>min (max v 0) 1 * (255::real)\<rfloor> :: 8 word) = \<lfloor>min (max v 0) 1 * (255::real)\<rfloor>"
proof -
  have "take_bit 8 \<lfloor>min (max v 0) 1 * (255::real)\<rfloor> = \<lfloor>min (max v 0) 1 * (255::real)\<rfloor>"
    using floor_byte_range [of v] by (intro take_bit_int_eq_self) simp_all
  then show ?thesis by (simp add: uint_word_of_int_eq)
qed

lemma deprocess_fresh_channels_last:
  "K_image_data_format K = Channels_last \<Longrightarrow>
   deprocess_fresh K x4 = tmap (\<lambda>v. word_of_int \<lfloor>min (max v 0) 1 * 255\<rfloor>) x4"
  by (simp add: deprocess_fresh_def np_clip_def tmap_tmap quantize_clipped quantize_scaled)

lemma deprocess_inplace_elems:
  "deprocess_inplace K x =
     tmap (\<lambda>v. (v - np_mean x) / (np_std (tmap (\<lambda>v. v - np_mean x) x) + K_epsilon K)
             * (1 / 10) + 1 / 2) x"
  by (simp add: deprocess_inplace_def Let_def tmap_tmap)

lemma deprocess_px0: "snd (deprocess_image default_backend [[[0]]]) = [[[127]]]"
  by (simp add: deprocess_image_def deprocess_inplace_def deprocess_fresh_channels_last
      default_backend_def np_mean_def np_std_def tmap_def tflat_def)

text \<open>
  Claim C7, as the code has it. In the channels-last convention \<^verbatim>\<open>deprocess_image\<close>
  returns an array of the shape of its argument, with the same height and width and the
  same number of channels; every element is the integer part of 255 times the clipped value,
  an unsigned byte between 0 and 255 stored without wrap-around.
\<close>

theorem deprocess_image_shape:
  assumes "K_image_data_format K = Channels_last" and "has_shape h w c x"
  shows "has_shape h w c (snd (deprocess_image K x)) \<and>
         tmap uint (snd (deprocess_image K x))
           = tmap (\<lambda>v. \<lfloor>min (max v 0) 1 * 255\<rfloor>) (fst (deprocess_image K x)) \<and>
         (\<forall>b \<in> set (tflat (tmap uint (snd (deprocess_image K x)))). 0 \<le> b \<and> b \<le> 255)"
proof (intro conjI)
  have img: "snd (deprocess_image K x)
      = tmap (\<lambda>v. word_of_int \<lfloor>min (max v 0) 1 * 255\<rfloor>) (deprocess_inplace K x)"
    using assms(1) by (simp add: deprocess_image_def deprocess_fresh_channels_last)
  have "has_shape h w c (deprocess_inplace K x)"
    using assms(2) by (simp only: deprocess_inplace_elems has_shape_tmap)
  then show "has_shape h w c (snd (deprocess_image K x))"
    by (simp add: img has_shape_tmap)
  show eq: "tmap uint (snd (deprocess_image K x))
      = tmap (\<lambda>v. \<lfloor>min (max v 0) 1 * 255\<rfloor>) (fst (deprocess_image K x))"
    unfolding img by (simp add: tmap_tmap uint_quantize deprocess_image_def)
  show "\<forall>b \<in> set (tflat (tmap uint (snd (deprocess_image K x)))). 0 \<le> b \<and> b \<le> 255"
    unfolding eq using floor_byte_range by (auto simp: tflat_tmap)
qed

theorem deprocess_image_shape_witness:
  "has_shape 1 1 1 (snd (deprocess_image default_backend [[[0]]])) \<and>
   tmap uint (snd (deprocess_image default_backend [[[0]]])) = [[[127]]]"
proof -
  have a: "K_image_data_format default_backend = Channels_last"
    by (simp add: default_backend_def)
  have b: "has_shape 1 1 1 [[[0::real]]]" by (simp add: has_shape_def)
  from deprocess_image_shape [OF a b] show ?thesis
    by (simp add: deprocess_px0 tmap_def)
qed

text \<open>
  Claim C7 as stated promises exactly three channels. An image of one pixel with one channel,
  as a network for gray-scale input has, comes back with one channel.
\<close>

theorem deprocess_three_channels_counterexample:
  "has_shape 1 1 1 [[[0::real]]] \<and>
   \<not> has_shape 1 1 3 (snd (deprocess_image default_backend [[[0]]]))"
  by (simp add: deprocess_px0 has_shape_def)

section \<open>The image postprocessor: mean and standard deviation\<close>

lemma sum_list_all_equal: "\<forall>v \<in> set xs. v = a \<Longrightarrow> sum_list xs = real (length xs) * a"
  by (induction xs) (auto simp: algebra_simps)

lemma np_mean_all_equal:
  assumes "\<forall>v \<in> set (tflat x). v = a" and "u \<in> set (tflat x)"
  shows "np_mean x = a"
proof -
  from assms(2) have "0 < length (tflat x)" by (cases "tflat x") auto
  with sum_list_all_equal [OF assms(1)] show ?thesis by (simp add: np_mean_def)
qed

lemma np_mean_nonneg: "\<forall>v \<in> set (tflat t). 0 \<le> v \<Longrightarrow> 0 \<le> np_mean t"
  by (simp add: np_mean_def sum_list_nonneg)

lemma np_std_nonneg: "0 \<le> np_std t"
  unfolding np_std_def by (rule real_sqrt_ge_zero, rule np_mean_nonneg) (simp add: tflat_tmap)

lemma sum_list_shift: "sum_list (map (\<lambda>v. v - m) xs) = sum_list xs - real (length xs) * m"
  by (induction xs) (auto simp: algebra_simps)

lemma np_mean_centered: "np_mean (tmap (\<lambda>v. v - np_mean x) x) = 0"
proof (cases "tflat x = []")
  case True
  then show ?thesis by (simp add: np_mean_def tflat_tmap)
next
  case False
  then have "0 < length (tflat x)" by simp
  then show ?thesis
    by (simp add: np_mean_def tflat_tmap sum_list_shift diff_divide_distrib)
qed

lemma np_std_centered: "np_std (tmap (\<lambda>v. v - np_mean x) x) = np_std x"
  by (simp add: np_std_def [of "tmap (\<lambda>v. v - np_mean x) x"] np_mean_centered tmap_tmap
      np_std_def [of x])

lemma deprocess_inplace_affine:
  "deprocess_inplace K x =
     tmap (\<lambda>v. (v - np_mean x) / (np_std x + K_epsilon K) * (1 / 10) + 1 / 2) x"
  by (simp only: deprocess_inplace_elems np_std_centered)

lemma bit_length_numeral:
  "bit_length 0 = 0"
  "bit_length (Suc 0) = Suc 0"
  "bit_length (numeral k) = Suc (bit_length (numeral k div 2))"
  by (simp_all add: bit_length.simps [of 0] bit_length.simps [of "Suc 0"]
      bit_length.simps [of "numeral k"])

lemma exponent_tenth: "exponent (1 / 10) = - 4"
  by (simp add: exponent_def bit_length_numeral)

lemma float64_tenth: "float64 (1 / 10) = 3602879701896397 / 2 ^ 55"
  by (simp add: float64_def exponent_tenth round_half_even_def power_int_minus)

text \<open>
  The rounding function meets its description: \<open>exponent\<close> brackets its argument between
  two powers of 2, and \<open>float64\<close> moves its argument by at most half a unit in the last
  place.
\<close>

lemma bit_length_bounds: "0 < n \<Longrightarrow> 2 ^ (bit_length n - 1) \<le> n \<and> n < 2 ^ bit_length n"
proof (induction n rule: bit_length.induct)
  case (1 n)
  show ?case
  proof (cases "n div 2 = 0")
    case True
    with 1(2) have "n = 1" by (cases n) auto
    then show ?thesis
      by (simp add: bit_length_numeral)
  next
    case False
    then have pos: "0 < n div 2" by simp
    from 1(1) [OF _ pos] 1(2)
    have ih: "2 ^ (bit_length (n div 2) - 1) \<le> n div 2" "n div 2 < 2 ^ bit_length (n div 2)"
      by simp_all
    have b: "bit_length n = Suc (bit_length (n div 2))"
      using 1(2) by (simp add: bit_length.simps [of n])
    have bp: "0 < bit_length (n div 2)"
      using pos by (simp add: bit_length.simps [of "n div 2"])
    then have e: "2 ^ bit_length (n div 2) = 2 * 2 ^ (bit_length (n div 2) - 1)"
      by (cases "bit_length (n div 2)") simp_all
    from ih(1) have "2 * 2 ^ (bit_length (n div 2) - 1) \<le> n" by simp
    moreover from ih(2) have "n < 2 * 2 ^ bit_length (n div 2)" by simp
    ultimately show ?thesis by (simp add: b e)
  qed
qed

lemma exponent_bounds:
  assumes "x \<noteq> 0"
  shows "2 powi exponent x \<le> \<bar>x\<bar> \<and> \<bar>x\<bar> < 2 powi (exponent x + 1)"
proof (cases "1 \<le> \<bar>x\<bar>")
  case True
  let ?n = "nat \<lfloor>\<bar>x\<bar>\<rfloor>"
  have n: "0 < ?n" using True by simp
  note b = bit_length_bounds [OF n]
  have bp: "0 < bit_length ?n" using n by (simp add: bit_length.simps [of ?n])
  have e: "exponent x = int (bit_length ?n - 1)"
    using True bp by (simp add: exponent_def)
  have fl: "real ?n = of_int \<lfloor>\<bar>x\<bar>\<rfloor>" using True by simp
  have f1: "of_int \<lfloor>\<bar>x\<bar>\<rfloor> \<le> \<bar>x\<bar>" by (rule of_int_floor_le)
  have f2: "\<bar>x\<bar> < of_int \<lfloor>\<bar>x\<bar>\<rfloor> + 1" by linarith
  from b have "real (2 ^ (bit_length ?n - 1)) \<le> real ?n" by (simp only: of_nat_le_iff)
  then have "(2::real) ^ (bit_length ?n - 1) \<le> real ?n" by simp
  with fl f1 have l: "(2::real) ^ (bit_length ?n - 1) \<le> \<bar>x\<bar>" by linarith
  from b have "Suc ?n \<le> 2 ^ bit_length ?n" by linarith
  then have "real (Suc ?n) \<le> real (2 ^ bit_length ?n)" by (simp only: of_nat_le_iff)
  then have "real ?n + 1 \<le> (2::real) ^ bit_length ?n" by simp
  with fl f2 have u: "\<bar>x\<bar> < (2::real) ^ bit_length ?n" by linarith
  have p1: "2 powi exponent x = (2::real) ^ (bit_length ?n - 1)"
    unfolding e by (rule power_int_of_nat)
  have "exponent x + 1 = int (bit_length ?n)" unfolding e using bp by linarith
  then have p2: "2 powi (exponent x + 1) = (2::real) ^ bit_length ?n"
    by (simp only: power_int_of_nat)
  from l u show ?thesis by (simp only: p1 p2)
next
  case False
  then have lt: "\<bar>x\<bar> < 1" by simp
  have xp: "0 < \<bar>x\<bar>" using assms by simp
  let ?c = "\<lceil>1 / \<bar>x\<bar>\<rceil>"
  let ?m = "nat (?c - 1)"
  have "1 < 1 / \<bar>x\<bar>" using lt xp by simp
  then have c2: "2 \<le> ?c" by linarith
  then have m: "0 < ?m" by simp
  note b = bit_length_bounds [OF m]
  let ?k = "bit_length ?m"
  have kp: "0 < ?k" using m by (simp add: bit_length.simps [of ?m])
  have e: "exponent x = - int ?k" using False by (simp add: exponent_def)
  have "0 \<le> ?c - 1" using c2 by linarith
  then have mc: "int ?m = ?c - 1" by (rule nat_0_le)
  from b have "int ?m < int (2 ^ ?k)" by (simp only: of_nat_less_iff)
  then have "int ?m < 2 ^ ?k" by (simp only: of_nat_power of_nat_numeral)
  with mc have "?c \<le> 2 ^ ?k" by simp
  then have "1 / \<bar>x\<bar> \<le> 2 ^ ?k" by (simp add: ceiling_le_iff)
  then have lo: "1 / 2 ^ ?k \<le> \<bar>x\<bar>" using xp by (simp add: field_simps)
  from b have "int (2 ^ (?k - 1)) \<le> int ?m" by (simp only: of_nat_le_iff)
  then have "2 ^ (?k - 1) \<le> int ?m" by (simp only: of_nat_power of_nat_numeral)
  with mc have "2 ^ (?k - 1) < ?c" by simp
  then have "2 ^ (?k - 1) < 1 / \<bar>x\<bar>" by (simp add: less_ceiling_iff)
  then have hi: "\<bar>x\<bar> < 1 / 2 ^ (?k - 1)" using xp by (simp add: field_simps)
  have p1: "2 powi exponent x = 1 / (2::real) ^ ?k"
    unfolding e by (simp only: power_int_minus_divide power_int_of_nat)
  have "exponent x + 1 = - int (?k - 1)" unfolding e using kp by linarith
  then have p2: "2 powi (exponent x + 1) = 1 / (2::real) ^ (?k - 1)"
    by (simp only: power_int_minus_divide power_int_of_nat)
  from lo hi show ?thesis by (simp only: p1 p2)
qed

lemma round_half_even_error: "\<bar>of_int (round_half_even y) - y\<bar> \<le> 1 / 2"
proof -
  have "of_int \<lfloor>y\<rfloor> \<le> y" "y < of_int \<lfloor>y\<rfloor> + 1" by linarith+
  then show ?thesis by (auto simp: round_half_even_def)
qed

lemma float64_error:
  "\<bar>float64 x - x\<bar> \<le> 2 powi (exponent x - 52) / 2"
proof (cases "x = 0")
  case True
  then show ?thesis by (simp add: float64_def)
next
  case False
  let ?u = "(2::real) powi (exponent x - 52)"
  let ?y = "x * 2 powi (52 - exponent x)"
  have u: "0 < ?u" by simp
  have "(2::real) powi (52 - exponent x) * ?u = 2 powi (52 - exponent x + (exponent x - 52))"
    by (rule power_int_add [symmetric]) simp
  then have one: "(2::real) powi (52 - exponent x) * ?u = 1" by simp
  have "float64 x - x = of_int (round_half_even ?y) * ?u - x * (2 powi (52 - exponent x) * ?u)"
    using False by (simp add: float64_def one)
  also have "\<dots> = (of_int (round_half_even ?y) - ?y) * ?u" by (simp add: algebra_simps)
  finally have "\<bar>float64 x - x\<bar> = \<bar>of_int (round_half_even ?y) - ?y\<bar> * ?u"
    using u by (simp add: abs_mult)
  also have "\<dots> \<le> 1 / 2 * ?u"
    using round_half_even_error [of ?y] u by (intro mult_right_mono) simp_all
  finally show ?thesis by simp
qed

lemma deprocess_image_exact: "deprocess_image_with np_mean np_std K x = deprocess_image K x"
  by (simp add: deprocess_image_with_def deprocess_inplace_with_def deprocess_image_def
      deprocess_inplace_def)

lemma deprocess_inplace_with_elems:
  "deprocess_inplace_with mean std K x =
     tmap (\<lambda>v. (v - mean x) / deprocess_divisor mean std K x * (1 / 10) + 1 / 2) x"
  by (simp add: deprocess_inplace_with_def deprocess_divisor_def Let_def tmap_tmap)

lemma round_half_even_nonneg: "0 \<le> x \<Longrightarrow> 0 \<le> round_half_even x"
  by (simp add: round_half_even_def)

lemma float64_nonneg: "0 \<le> x \<Longrightarrow> 0 \<le> float64 x"
  by (simp add: float64_def round_half_even_nonneg)

lemma foldl_float64_nonneg:
  "0 \<le> acc \<Longrightarrow> \<forall>v \<in> set xs. 0 \<le> v \<Longrightarrow>
   0 \<le> foldl (\<lambda>acc v. float64 (acc + v)) acc xs"
  by (induction xs arbitrary: acc) (simp_all add: float64_nonneg)

lemma np_mean_float64_nonneg: "\<forall>v \<in> set (tflat t). 0 \<le> v \<Longrightarrow> 0 \<le> np_mean_float64 t"
  by (simp add: np_mean_float64_def add_reduce_float64_def float64_nonneg foldl_float64_nonneg)

lemma np_std_float64_nonneg: "0 \<le> np_std_float64 t"
  unfolding np_std_float64_def
  by (intro float64_nonneg real_sqrt_ge_zero np_mean_float64_nonneg)
    (simp add: tflat_tmap float64_nonneg)

lemma quantize_half: "astype_uint8 (255 / 2) = 127"
  by (simp add: astype_uint8_def)

text \<open>
  Claim C9, as the code has it. For an input all of whose elements are equal, and reductions
  that return a standard deviation that is not negative, the divisor of line 29 is positive,
  so the division is by a number other than 0, and every element of the returned image is
  one and the same byte. That byte is 127, the integer part of 0.5 times 255, whenever
  \<^verbatim>\<open>x.mean()\<close> returns the common value of the elements, as the exact mean does.
\<close>

theorem deprocess_constant_tensor:
  assumes "0 < K_epsilon K" and "K_image_data_format K = Channels_last"
    and "\<forall>v \<in> set (tflat x). v = a"
    and "0 \<le> std (tmap (\<lambda>v. v - mean x) x)"
  shows "0 < deprocess_divisor mean std K x \<and>
         snd (deprocess_image_with mean std K x)
           = tmap (\<lambda>v. astype_uint8 (min (max ((a - mean x) / deprocess_divisor mean std K x
                          * (1 / 10) + 1 / 2) 0) 1 * 255)) x \<and>
         (mean x = a \<longrightarrow> snd (deprocess_image_with mean std K x) = tmap (\<lambda>v. 127) x) \<and>
         snd (deprocess_image K x) = tmap (\<lambda>v. 127) x"
proof -
  have d: "0 < deprocess_divisor mean std K x"
    using assms(1,4) by (simp add: deprocess_divisor_def)
  have img: "snd (deprocess_image_with mean std K x)
      = tmap (\<lambda>v. astype_uint8 (min (max ((v - mean x) / deprocess_divisor mean std K x
                          * (1 / 10) + 1 / 2) 0) 1 * 255)) x"
    for mean std
    using assms(2)
    by (simp add: deprocess_image_with_def deprocess_fresh_channels_last
        deprocess_inplace_with_elems tmap_tmap quantize_scaled)
  have same: "snd (deprocess_image_with mean std K x)
      = tmap (\<lambda>v. astype_uint8 (min (max ((a - mean x) / deprocess_divisor mean std K x
                          * (1 / 10) + 1 / 2) 0) 1 * 255)) x"
    for mean std
    unfolding img using assms(3) by (intro tmap_cong_elems) simp
  have gray: "snd (deprocess_image_with mean std K x) = tmap (\<lambda>v. 127) x" if "mean x = a"
    for mean std
    unfolding same that by (simp add: quantize_half)
  have exact: "snd (deprocess_image K x) = tmap (\<lambda>v. 127) x"
  proof (cases "tflat x = []")
    case True
    then have "tmap f x = tmap g x" for f g :: "real \<Rightarrow> 8 word"
      by (intro tmap_cong_elems) simp
    then show ?thesis
      unfolding deprocess_image_exact [symmetric] same [of np_mean np_std] .
  next
    case False
    then obtain u where "u \<in> set (tflat x)" by (cases "tflat x") auto
    with assms(3) have "np_mean x = a" by (rule np_mean_all_equal)
    then show ?thesis
      unfolding deprocess_image_exact [symmetric] by (rule gray)
  qed
  from d same gray exact show ?thesis by blast
qed


lemma float64_gray: "float64 128 = 128" "float64 256 = 256"
  by (simp_all add: float64_def exponent_def bit_length_numeral round_half_even_def
      power_int_minus)

lemma np_mean_float64_gray: "np_mean_float64 [[[128, 128]]] = 128"
  by (simp add: np_mean_float64_def add_reduce_float64_def tflat_def float64_gray)

theorem deprocess_constant_tensor_witness:
  "0 < K_epsilon default_backend \<and>
   list_all (\<lambda>v. v = 128) (tflat [[[128, 128], [128, 128::real]]]) \<and>
   np_mean [[[128, 128], [128, 128]]] = 128 \<and>
   0 < deprocess_divisor np_mean np_std default_backend [[[128, 128], [128, 128]]] \<and>
   snd (deprocess_image_with np_mean np_std default_backend [[[128, 128], [128, 128]]])
     = [[[127, 127], [127, 127]]] \<and>
   snd (deprocess_image default_backend [[[128, 128], [128, 128]]])
     = [[[127, 127], [127, 127]]] \<and>
   np_mean_float64 [[[128, 128]]] = 128 \<and>
   snd (deprocess_image_with np_mean_float64 np_std_float64 default_backend [[[128, 128]]])
     = [[[127, 127]]]"
proof -
  have e: "0 < K_epsilon default_backend"
    by (simp add: default_backend_def K_epsilon_default_def)
  have f: "K_image_data_format default_backend = Channels_last"
    by (simp add: default_backend_def)
  have c: "\<forall>v \<in> set (tflat [[[128, 128], [128, 128::real]]]). v = 128"
    by (simp add: tflat_def)
  have l: "list_all (\<lambda>v. v = 128) (tflat [[[128, 128], [128, 128::real]]])"
    using c by (simp only: list_all_iff)
  have n: "0 \<le> np_std (tmap (\<lambda>v. v - np_mean [[[128, 128], [128, 128]]])
      [[[128, 128], [128, 128]]])"
    by (rule np_std_nonneg)
  have m: "np_mean [[[128, 128], [128, 128]]] = 128" by (simp add: np_mean_def tflat_def)
  have t: "tmap (\<lambda>v. 127 :: 8 word) [[[128, 128], [128, 128::real]]]
      = [[[127, 127], [127, 127]]]"
    by (simp add: tmap_def)
  note r = deprocess_constant_tensor [where mean = np_mean and std = np_std, OF e f c n]
  from r have r1: "0 < deprocess_divisor np_mean np_std default_backend
      [[[128, 128], [128, 128]]]"
    by blast
  from r m have r2: "snd (deprocess_image_with np_mean np_std default_backend
      [[[128, 128], [128, 128]]]) = [[[127, 127], [127, 127]]]"
    unfolding t by blast
  from r have r3: "snd (deprocess_image default_backend [[[128, 128], [128, 128]]])
      = [[[127, 127], [127, 127]]]"
    unfolding t by blast
  have c2: "\<forall>v \<in> set (tflat [[[128, 128::real]]]). v = 128" by (simp add: tflat_def)
  have n2: "0 \<le> np_std_float64 (tmap (\<lambda>v. v - np_mean_float64 [[[128, 128]]]) [[[128, 128]]])"
    by (rule np_std_float64_nonneg)
  have t2: "tmap (\<lambda>v. 127 :: 8 word) [[[128, 128::real]]] = [[[127, 127]]]"
    by (simp add: tmap_def)
  note q = deprocess_constant_tensor [where mean = np_mean_float64 and std = np_std_float64,
      OF e f c2 n2]
  from q np_mean_float64_gray have q1: "snd (deprocess_image_with np_mean_float64 np_std_float64
      default_backend [[[128, 128]]]) = [[[127, 127]]]"
    unfolding t2 by blast
  show ?thesis by (intro conjI e l m r1 r2 r3 np_mean_float64_gray q1)
qed

text \<open>
  Claim C9 as stated promises the byte 127 for every such input. The double
  6755399441055746 is \<open>3 * 2 ^ 51 + 2\<close>; the rounded sum of three of them is
  20266198323167240 and the rounded mean is 6755399441055747, so every element is centred
  to \<open>- 1\<close>, divided by epsilon alone, and clipped to the byte 0.
\<close>

lemma float64_values:
  "float64 6755399441055746 = 6755399441055746"
  "float64 13510798882111492 = 13510798882111492"
  "float64 20266198323167238 = 20266198323167240"
  "float64 (20266198323167240 / 3) = 6755399441055747"
  "float64 (- 1) = - 1" "float64 (- 2) = - 2" "float64 (- 3) = - 3"
  by (simp_all add: float64_def exponent_def bit_length_numeral round_half_even_def
      power_int_minus)

lemma np_mean_float64_triple:
  "np_mean_float64 [[[6755399441055746, 6755399441055746, 6755399441055746]]]
     = 6755399441055747"
  by (simp add: np_mean_float64_def add_reduce_float64_def tflat_def float64_values)

lemma np_std_float64_centred: "np_std_float64 [[[- 1, - 1, - 1]]] = 0"
proof -
  have m: "np_mean_float64 [[[- 1, - 1, - 1]]] = - 1"
    by (simp add: np_mean_float64_def add_reduce_float64_def tflat_def float64_values)
  have z: "float64 0 = 0" by (simp add: float64_def)
  have "np_mean_float64 [[[0, 0, 0]]] = 0"
    by (simp add: np_mean_float64_def add_reduce_float64_def tflat_def z)
  then show ?thesis
    by (simp add: np_std_float64_def m z tmap_def)
qed

theorem deprocess_constant_rounding_counterexample:
  "list_all (\<lambda>v. v = 6755399441055746)
     (tflat [[[6755399441055746, 6755399441055746, 6755399441055746 :: real]]]) \<and>
   float64 6755399441055746 = 6755399441055746 \<and>
   np_mean_float64 [[[6755399441055746, 6755399441055746, 6755399441055746]]]
     = 6755399441055747 \<and>
   snd (deprocess_image_with np_mean_float64 np_std_float64 default_backend
          [[[6755399441055746, 6755399441055746, 6755399441055746]]])
     = [[[0, 0, 0]]]"
proof -
  have c: "tmap (\<lambda>v. v - 6755399441055747)
      [[[6755399441055746, 6755399441055746, 6755399441055746 :: real]]] = [[[- 1, - 1, - 1]]]"
    by (simp add: tmap_def)
  have d: "deprocess_divisor np_mean_float64 np_std_float64 default_backend
      [[[6755399441055746, 6755399441055746, 6755399441055746]]] = 1 / 10 ^ 7"
    by (simp only: deprocess_divisor_def np_mean_float64_triple c np_std_float64_centred)
      (simp add: default_backend_def K_epsilon_default_def)
  have f: "K_image_data_format default_backend = Channels_last"
    by (simp add: default_backend_def)
  have "snd (deprocess_image_with np_mean_float64 np_std_float64 default_backend
          [[[6755399441055746, 6755399441055746, 6755399441055746]]]) = [[[0, 0, 0]]]"
    unfolding deprocess_image_with_def snd_conv deprocess_fresh_channels_last [OF f]
      deprocess_inplace_with_elems d np_mean_float64_triple
    by (simp add: tmap_def)
  then show ?thesis
    by (simp add: tflat_def float64_values np_mean_float64_triple)
qed

section \<open>The image postprocessor: the argument after the call\<close>

lemma affine_fixes_two_points:
  fixes a b m s :: real
  assumes "0 < s" and "a \<noteq> b"
    and "(a - m) / s * (1 / 10) + 1 / 2 = a"
    and "(b - m) / s * (1 / 10) + 1 / 2 = b"
  shows "m = 1 / 2 \<and> s = 1 / 10"
proof -
  have ea: "a - m = (a - 1 / 2) * (10 * s)" using assms(1,3) by (simp add: field_simps)
  have eb: "b - m = (b - 1 / 2) * (10 * s)" using assms(1,4) by (simp add: field_simps)
  have "(a - m) - (b - m) = (a - 1 / 2) * (10 * s) - (b - 1 / 2) * (10 * s)"
    using ea eb by simp
  then have "(a - b) * (10 * s - 1) = 0" by (simp add: algebra_simps)
  with assms(2) have s: "10 * s = 1" by simp
  with ea have "a - m = a - 1 / 2" by simp
  with s show ?thesis by simp
qed

lemma deprocess_inplace_fixed_iff:
  assumes "0 < K_epsilon K" and "a \<in> set (tflat x)" and "b \<in> set (tflat x)" and "a \<noteq> b"
  shows "deprocess_inplace K x = x \<longleftrightarrow> np_mean x = 1 / 2 \<and> np_std x = 1 / 10 - K_epsilon K"
proof
  have pos: "0 < np_std x + K_epsilon K" using assms(1) np_std_nonneg [of x] by simp
  assume "deprocess_inplace K x = x"
  then have fixed: "\<forall>v \<in> set (tflat x).
      (v - np_mean x) / (np_std x + K_epsilon K) * (1 / 10) + 1 / 2 = v"
    unfolding deprocess_inplace_affine by (simp only: tmap_ident_iff)
  from fixed assms(2) have fa: "(a - np_mean x) / (np_std x + K_epsilon K) * (1 / 10) + 1 / 2 = a"
    by blast
  from fixed assms(3) have fb: "(b - np_mean x) / (np_std x + K_epsilon K) * (1 / 10) + 1 / 2 = b"
    by blast
  from affine_fixes_two_points [OF pos assms(4) fa fb]
  show "np_mean x = 1 / 2 \<and> np_std x = 1 / 10 - K_epsilon K" by simp
next
  assume "np_mean x = 1 / 2 \<and> np_std x = 1 / 10 - K_epsilon K"
  then have m: "np_mean x = 1 / 2" and s: "np_std x + K_epsilon K = 1 / 10"
    by simp_all
  have "\<forall>v \<in> set (tflat x).
      (v - np_mean x) / (np_std x + K_epsilon K) * (1 / 10) + 1 / 2 = v"
    unfolding m s by (simp add: diff_divide_distrib)
  then show "deprocess_inplace K x = x"
    unfolding deprocess_inplace_affine by (simp only: tmap_ident_iff)
qed

text \<open>
  Claim C10, as the code has it. \<^verbatim>\<open>deprocess_image\<close> changes its argument in place: when
  it returns, the argument array holds, for each original element \<open>v\<close>, the centred, rescaled
  and shifted value \<open>(v - mean) / (std + epsilon) * 0.1 + 0.5\<close>; clipping, scaling to bytes
  and the cast work on fresh arrays. For an array with two distinct elements this content
  differs from the original one unless the mean is 0.5 and the standard deviation is
  0.1 minus epsilon.
\<close>

theorem deprocess_image_mutates_argument:
  assumes "0 < K_epsilon K" and "a \<in> set (tflat x)" and "b \<in> set (tflat x)" and "a \<noteq> b"
  shows "fst (deprocess_image K x)
           = tmap (\<lambda>v. (v - np_mean x) / (np_std x + K_epsilon K) * (1 / 10) + 1 / 2) x \<and>
         (fst (deprocess_image K x) = x
            \<longleftrightarrow> np_mean x = 1 / 2 \<and> np_std x = 1 / 10 - K_epsilon K)"
  using deprocess_inplace_fixed_iff [OF assms]
  by (simp add: deprocess_image_def deprocess_inplace_affine)

theorem deprocess_image_mutates_argument_witness:
  "0 < K_epsilon default_backend \<and> (0::real) \<in> set (tflat [[[0, 2]]]) \<and>
   (2::real) \<in> set (tflat [[[0, 2]]]) \<and> (0::real) \<noteq> 2 \<and>
   fst (deprocess_image default_backend [[[0, 2]]]) \<noteq> [[[0, 2]]]"
proof -
  have e: "0 < K_epsilon default_backend"
    by (simp add: default_backend_def K_epsilon_default_def)
  have a: "(0::real) \<in> set (tflat [[[0, 2]]])" by (simp add: tflat_def)
  have b: "(2::real) \<in> set (tflat [[[0, 2]]])" by (simp add: tflat_def)
  have n: "(0::real) \<noteq> 2" by simp
  have m: "np_mean [[[0, 2]]] \<noteq> 1 / 2" by (simp add: np_mean_def tflat_def)
  from m deprocess_image_mutates_argument [OF e a b n]
  have "fst (deprocess_image default_backend [[[0, 2]]]) \<noteq> [[[0, 2]]]" by blast
  with e a b n show ?thesis by blast
qed

lemma fixed_tensor_mean: "np_mean [[[4000001 / 10 ^ 7, 5999999 / 10 ^ 7]]] = 1 / 2"
  by (simp add: np_mean_def tflat_def)

lemma fixed_tensor_std:
  "np_std [[[4000001 / 10 ^ 7, 5999999 / 10 ^ 7]]] = 1 / 10 - K_epsilon default_backend"
  unfolding np_std_def fixed_tensor_mean
  by (rule real_sqrt_unique)
    (simp_all add: np_mean_def tmap_def tflat_def default_backend_def K_epsilon_default_def
      power2_eq_square)

text \<open>
  Claim C10 as stated says that the argument never keeps its values and that a second call
  on the same array gives other bytes. An array with mean 0.5 and standard deviation
  0.1 minus epsilon is left as it was, and the second call returns the bytes of the first.
\<close>

theorem deprocess_image_twice_counterexample:
  "(4000001 / 10 ^ 7 :: real) \<noteq> 5999999 / 10 ^ 7 \<and>
   fst (deprocess_image default_backend [[[4000001 / 10 ^ 7, 5999999 / 10 ^ 7]]])
     = [[[4000001 / 10 ^ 7, 5999999 / 10 ^ 7]]] \<and>
   snd (deprocess_image default_backend
          (fst (deprocess_image default_backend [[[4000001 / 10 ^ 7, 5999999 / 10 ^ 7]]])))
     = snd (deprocess_image default_backend [[[4000001 / 10 ^ 7, 5999999 / 10 ^ 7]]])"
proof -
  have e: "0 < K_epsilon default_backend"
    by (simp add: default_backend_def K_epsilon_default_def)
  have a: "(4000001 / 10 ^ 7 :: real) \<in> set (tflat [[[4000001 / 10 ^ 7, 5999999 / 10 ^ 7]]])"
    by (simp add: tflat_def)
  have b: "(5999999 / 10 ^ 7 :: real) \<in> set (tflat [[[4000001 / 10 ^ 7, 5999999 / 10 ^ 7]]])"
    by (simp add: tflat_def)
  have n: "(4000001 / 10 ^ 7 :: real) \<noteq> 5999999 / 10 ^ 7" by simp
  have "deprocess_inplace default_backend [[[4000001 / 10 ^ 7, 5999999 / 10 ^ 7]]]
      = [[[4000001 / 10 ^ 7, 5999999 / 10 ^ 7]]]"
    using deprocess_inplace_fixed_iff [OF e a b n] fixed_tensor_mean fixed_tensor_std by blast
  with n show ?thesis by (simp add: deprocess_image_def)
qed

section \<open>The gradient normalizer: contract and scaling\<close>

lemma mean_square_nonneg: "0 \<le> sum_list (map (\<lambda>v. v\<^sup>2) xs) / real (length xs)"
  by (intro divide_nonneg_nonneg sum_list_nonneg) auto

lemma K_rms: "K_sqrt (K_mean (K_square t)) = rms t"
proof -
  have "K_mean (K_square t) = sum_list (map (\<lambda>v. v\<^sup>2) (tflat t)) / real (length (tflat t))"
    by (simp add: K_mean_def K_square_def tflat_tmap power2_eq_square)
  then show ?thesis
    using mean_square_nonneg [of "tflat t"] by (simp add: K_sqrt_def rms_def max_def)
qed

lemma rms_nonneg: "0 \<le> rms t"
  unfolding rms_def by (rule real_sqrt_ge_zero) (rule mean_square_nonneg)

lemma normalize_tensor_rms: "normalize_tensor K t = tmap (\<lambda>v. v / (rms t + K_epsilon K)) t"
  by (simp add: normalize_tensor_def K_rms)

text \<open>
  Claim C6. With a positive epsilon, \<^verbatim>\<open>normalize\<close> returns its argument divided by the
  root of the mean of its squares plus epsilon; the divisor is positive, so the quotient is
  defined for every tensor, and a tensor of zeros is returned as it is.
\<close>

theorem normalize_is_rms_quotient:
  assumes "0 < K_epsilon K"
  shows "normalize_tensor K t = normalize_spec (K_epsilon K) t \<and>
         0 < rms t + K_epsilon K \<and>
         ((\<forall>v \<in> set (tflat t). v = 0) \<longrightarrow> normalize_tensor K t = t)"
proof (intro conjI impI)
  show "normalize_tensor K t = normalize_spec (K_epsilon K) t"
    by (simp add: normalize_tensor_rms normalize_spec_def)
  show "0 < rms t + K_epsilon K"
    using assms rms_nonneg [of t] by simp
  assume "\<forall>v \<in> set (tflat t). v = 0"
  then have "\<forall>v \<in> set (tflat t). v / (rms t + K_epsilon K) = v" by auto
  then show "normalize_tensor K t = t"
    unfolding normalize_tensor_rms by (simp only: tmap_ident_iff)
qed

theorem normalize_is_rms_quotient_witness:
  "0 < K_epsilon default_backend \<and>
   list_all (\<lambda>v. v = 0) (tflat [[[0, 0::real]]]) \<and>
   normalize_tensor default_backend [[[0, 0]]] = [[[0, 0]]] \<and>
   normalize_tensor default_backend [[[0, 0]]] = normalize_spec (1 / 10 ^ 7) [[[0, 0]]]"
proof -
  have e: "0 < K_epsilon default_backend"
    by (simp add: default_backend_def K_epsilon_default_def)
  have z: "\<forall>v \<in> set (tflat [[[0, 0::real]]]). v = 0" by (simp add: tflat_def)
  have k: "K_epsilon default_backend = 1 / 10 ^ 7"
    by (simp add: default_backend_def K_epsilon_default_def)
  from e z normalize_is_rms_quotient [OF e, of "[[[0, 0]]]"] show ?thesis
    unfolding k list_all_iff by blast
qed











section \<open>The orchestrator: files written and the check of layer names\<close>

lemma process_filter_frame:
  "files (snd (process_filter K W l shp f acc)) = files (snd acc) \<and>
   clock_reads (snd (process_filter K W l shp f acc)) = clock_reads (snd acc)"
  by (simp add: process_filter_def Let_def split: prod.splits)

lemma fold_process_filter_frame:
  "files (snd (fold (process_filter K W l shp) fs acc)) = files (snd acc) \<and>
   clock_reads (snd (fold (process_filter K W l shp) fs acc)) = clock_reads (snd acc)"
  by (induction fs arbitrary: acc) (simp_all add: process_filter_frame)

lemma process_conv_2d_layer_frame:
  "files (snd (process_conv_2d_layer K W l shp s)) = files s \<and>
   clock_reads (snd (process_conv_2d_layer K W l shp s)) = clock_reads s"
  using fold_process_filter_frame [of K W l shp "[0..<filter_cnt l]" "([], s)"]
  by (simp add: process_conv_2d_layer_def)

lemma fold_save_image:
  "files (fold (save_image W out_dir name) (enumerate n xs) s)
     = files s @ map (file_entry W out_dir name (clock_reads s - n)) (enumerate n xs) \<and>
   clock_reads (fold (save_image W out_dir name) (enumerate n xs) s) = clock_reads s + length xs"
  if "n \<le> clock_reads s"
  using that
proof (induction xs arbitrary: n s)
  case Nil
  then show ?case by simp
next
  case (Cons x xs)
  obtain img loss where x: "x = (img, loss)" by (cases x)
  let ?s = "save_image W out_dir name (n, x) s"
  have c: "clock_reads ?s = Suc (clock_reads s)"
    and f: "files ?s = files s @ [file_entry W out_dir name (clock_reads s - n) (n, x)]"
    using Cons.prems by (simp_all add: save_image_def file_entry_def x)
  have le: "Suc n \<le> clock_reads ?s" using Cons.prems c by simp
  have d: "clock_reads ?s - Suc n = clock_reads s - n" using c by simp
  from Cons.IH [OF le] show ?case
    unfolding d by (simp add: c f)
qed


lemma save_images_files:
  "files (save_images W out_dir name kept s)
     = files s @ map (file_entry W out_dir name (clock_reads s)) (enumerate 0 kept)"
  using fold_save_image [of 0 s W out_dir name kept] by (simp add: save_images_def)

lemma deprocess_px: "snd (deprocess_image default_backend [[[v]]]) = [[[127]]]"
  by (simp add: deprocess_image_def deprocess_inplace_def deprocess_fresh_channels_last
      default_backend_def np_mean_def np_std_def tmap_def tflat_def)

lemma random_start_unit:
  "random_start example_world p (Suc 0, Suc 0, Suc 0) = [[[128]]]"
  using random_start_example [of p] by simp

lemma process_filter_dead:
  "process_filter default_backend example_world linear_layer (1, 1, 1) 0 ([], state0)
     = ([], state0\<lparr>rng_pos := 1, iterate_calls := 1\<rparr>)"
  by (simp add: process_filter_def random_start_unit ascent_dead state0_def)

lemma process_filter_live:
  "process_filter default_backend example_world linear_layer (1, 1, 1) (Suc 0)
       ([], state0\<lparr>rng_pos := 1, iterate_calls := 1\<rparr>)
     = ([([[[127]]], 1)], state0\<lparr>rng_pos := 2, iterate_calls := 21\<rparr>)"
  by (simp add: process_filter_def random_start_unit ascent_live deprocess_px state0_def)

lemma process_conv_2d_layer_example:
  "process_conv_2d_layer default_backend example_world linear_layer (1, 1, 1) state0
     = ([([[[127]]], 1)], state0\<lparr>rng_pos := 2, iterate_calls := 21\<rparr>)"
proof -
  have "[0..<filter_cnt linear_layer] = [0, Suc 0]" by (simp add: linear_layer_def upt_rec)
  with process_filter_dead process_filter_live show ?thesis
    by (simp add: process_conv_2d_layer_def)
qed

lemma process_filter_append:
  "process_filter K W l shp f (kept, s)
     = (kept @ fst (process_filter K W l shp f ([], s)),
        snd (process_filter K W l shp f ([], s)))"
  by (simp add: process_filter_def Let_def split: prod.splits)

lemma fold_process_filter_upt:
  "fold (process_filter K W l shp) [0..<n] ([], s)
     = (concat (map (filter_outcome K W l shp s) [0..<n]), filter_start K W l shp s n)"
proof (induction n)
  case 0
  show ?case by (simp add: filter_start_def)
next
  case (Suc n)
  have "fold (process_filter K W l shp) [0..<Suc n] ([], s)
      = process_filter K W l shp n
          (concat (map (filter_outcome K W l shp s) [0..<n]), filter_start K W l shp s n)"
    by (simp add: Suc.IH)
  also have "\<dots> = (concat (map (filter_outcome K W l shp s) [0..<n])
        @ filter_outcome K W l shp s n,
      snd (process_filter K W l shp n ([], filter_start K W l shp s n)))"
    by (simp only: process_filter_append [of K W l shp n "concat _"] filter_outcome_def)
  finally have step: "fold (process_filter K W l shp) [0..<Suc n] ([], s)
      = (concat (map (filter_outcome K W l shp s) [0..<n]) @ filter_outcome K W l shp s n,
         snd (process_filter K W l shp n ([], filter_start K W l shp s n)))" .
  then have "filter_start K W l shp s (Suc n)
      = snd (process_filter K W l shp n ([], filter_start K W l shp s n))"
    by (simp only: filter_start_def [of K W l shp s "Suc n"] snd_conv)
  with step show ?case by simp
qed

lemma process_conv_2d_layer_outcomes:
  "fst (process_conv_2d_layer K W l shp s)
     = concat (map (filter_outcome K W l shp s) [0..<filter_cnt l])"
  by (simp add: process_conv_2d_layer_def fold_process_filter_upt)

lemma filter_outcome_length: "length (filter_outcome K W l shp s f) \<le> 1"
  by (simp add: filter_outcome_def process_filter_def Let_def split: prod.splits)

lemma length_concat_short:
  "(\<And>g. length (h g) \<le> 1) \<Longrightarrow>
   length (concat (map h xs)) = length (filter (\<lambda>g. h g \<noteq> []) xs)"
proof (induction xs)
  case Nil
  show ?case by simp
next
  case (Cons x xs)
  from Cons.prems [of x] have "h x = [] \<or> length (h x) = 1"
    by (cases "h x") simp_all
  with Cons show ?case by auto
qed

lemma kept_position:
  assumes "f < n" and "filter_outcome K W l shp s f = [e]"
  shows "kept_before K W l shp s f < length (concat (map (filter_outcome K W l shp s) [0..<n])) \<and>
         concat (map (filter_outcome K W l shp s) [0..<n]) ! kept_before K W l shp s f = e"
proof -
  let ?h = "filter_outcome K W l shp s"
  have split: "[0..<n] = [0..<f] @ f # [Suc f..<n]"
  proof -
    have "[0..<f + (n - f)] = [0..<f] @ [f..<f + (n - f)]" by (rule upt_add_eq_append) simp
    moreover have "f + (n - f) = n" using assms(1) by simp
    moreover have "[f..<n] = f # [Suc f..<n]" using assms(1) by (rule upt_conv_Cons)
    ultimately show ?thesis by simp
  qed
  have len: "length (concat (map ?h [0..<f])) = kept_before K W l shp s f"
    unfolding kept_before_def by (rule length_concat_short) (rule filter_outcome_length)
  have "concat (map ?h [0..<n]) = concat (map ?h [0..<f]) @ e # concat (map ?h [Suc f..<n])"
    by (simp only: split map_append list.map concat_append concat.simps assms(2) append.simps)
  with len show ?thesis by (simp add: nth_append)
qed

lemma kept_before_le:
  "kept_before K W l shp s f \<le> f \<and>
   (kept_before K W l shp s f = f \<longleftrightarrow> (\<forall>g<f. filter_outcome K W l shp s g \<noteq> []))"
proof -
  let ?P = "\<lambda>g. filter_outcome K W l shp s g \<noteq> []"
  have le: "length (filter ?P [0..<f]) \<le> length [0..<f]" by (rule length_filter_le)
  have "length (filter ?P [0..<f]) = length [0..<f] \<longleftrightarrow> (\<forall>g \<in> set [0..<f]. ?P g)"
  proof
    assume eq: "length (filter ?P [0..<f]) = length [0..<f]"
    show "\<forall>g \<in> set [0..<f]. ?P g"
    proof (rule ccontr)
      assume "\<not> (\<forall>g \<in> set [0..<f]. ?P g)"
      then obtain g where "g \<in> set [0..<f]" "\<not> ?P g" by blast
      then have "length (filter ?P [0..<f]) < length [0..<f]" by (rule length_filter_less)
      with eq show False by simp
    qed
  next
    assume "\<forall>g \<in> set [0..<f]. ?P g"
    then have "filter ?P [0..<f] = [0..<f]" by (simp only: filter_id_conv)
    then show "length (filter ?P [0..<f]) = length [0..<f]" by simp
  qed
  with le show ?thesis by (auto simp: kept_before_def)
qed

text \<open>
  Claim C2, as the code has it. For a convolution layer with an ASCII name, one file is
  written for each kept filter of the layer, after the files written before. The file of a
  kept filter stands at the position that is the number of kept filters with a smaller index,
  and that number, not the index of the filter, is the number in its name: the output
  directory, the time stamp, the name of the layer, that number and the loss, joined as
  \<^verbatim>\<open>{}/{}_{}_{}_{}.png\<close>. The number is at most the index of the filter, and equal
  to it exactly when no filter before it was skipped.
\<close>

theorem file_names_use_position_among_kept:
  assumes "layer_type l = ''Conv2D''" and "is_ascii (layer_name l)"
    and "f < filter_cnt l" and "filter_outcome K W l shp s f = [(img, loss)]"
    and "i = kept_before K W l shp s f"
    and "s' = snd (process_layers_loop K W shp out_dir [l] s)"
  shows "length (files s') = length (files s) + kept_before K W l shp s (filter_cnt l) \<and>
         take (length (files s)) (files s') = files s \<and>
         length (files s) + i < length (files s') \<and>
         files s' ! (length (files s) + i)
           = (file_name out_dir (now_strftime W (clock_reads s + i)) (layer_name l) i
                (str_float W loss), img) \<and>
         i \<le> f \<and> (i = f \<longleftrightarrow> (\<forall>g<f. filter_outcome K W l shp s g \<noteq> []))"
proof -
  let ?kept = "fst (process_conv_2d_layer K W l shp s)"
  obtain kept s1 where p: "process_conv_2d_layer K W l shp s = (kept, s1)"
    by (cases "process_conv_2d_layer K W l shp s")
  from process_conv_2d_layer_frame [of K W l shp s] p
  have fr: "files s1 = files s" "clock_reads s1 = clock_reads s" by simp_all
  have fs: "files s' = files s
      @ map (file_entry W out_dir (layer_name l) (clock_reads s)) (enumerate 0 kept)"
    using assms(1,2) by (simp add: assms(6) p save_images_files fr)
  have k: "kept = concat (map (filter_outcome K W l shp s) [0..<filter_cnt l])"
    using process_conv_2d_layer_outcomes [of K W l shp s] p by simp
  have len: "length kept = kept_before K W l shp s (filter_cnt l)"
    unfolding k kept_before_def by (rule length_concat_short) (rule filter_outcome_length)
  from kept_position [OF assms(3,4)] have pos: "i < length kept" "kept ! i = (img, loss)"
    unfolding k assms(5) by simp_all
  have "files s' ! (length (files s) + i)
      = file_entry W out_dir (layer_name l) (clock_reads s) (i, kept ! i)"
    using pos(1) by (simp add: fs nth_append nth_enumerate_eq)
  then have entry: "files s' ! (length (files s) + i)
      = (file_name out_dir (now_strftime W (clock_reads s + i)) (layer_name l) i
           (str_float W loss), img)"
    by (simp add: pos(2) file_entry_def)
  from kept_before_le [of K W l shp s f]
  have le: "i \<le> f" "i = f \<longleftrightarrow> (\<forall>g<f. filter_outcome K W l shp s g \<noteq> [])"
    unfolding assms(5) by simp_all
  from fs len pos(1) entry le show ?thesis by simp
qed

lemma linear_layer_fields:
  "layer_type linear_layer = ''Conv2D''" "layer_name linear_layer = lit ''conv''"
  "is_ascii (layer_name linear_layer)" "is_ascii (lit ''conv'')"
  by (simp_all add: linear_layer_def is_ascii_def lit_def)

lemma process_layers_conv_model:
  "process_layers default_backend example_world conv_model (lit ''out'') state0
     = (None, \<lparr>rng_pos = 2, clock_reads = 1, iterate_calls = 21,
          files = [(file_name (lit ''out'') (now_strftime example_world 0) (lit ''conv'') 0
                      (str_float example_world 1), [[[127]]])]\<rparr>)"
  using process_conv_2d_layer_example
  by (simp add: process_layers_def conv_model_def linear_layer_fields save_images_def
      save_image_def state0_def)

lemma str_nat_digits: "str_nat 0 = [48]" "str_nat (Suc 0) = [49]"
  by (simp_all add: str_nat.simps [of 0] str_nat.simps [of "Suc 0"])

lemma example_file_names:
  "file_name (lit ''out'') (now_strftime example_world 0) (lit ''conv'') 0
     (str_float example_world 1) = lit ''out/2017-01-01_00_00_00_000000_conv_0_1.0.png''"
  "file_name (lit ''out'') (now_strftime example_world 0) (lit ''conv'') (Suc 0)
     (str_float example_world 1) = lit ''out/2017-01-01_00_00_00_000000_conv_1_1.0.png''"
  by (simp_all add: file_name_def example_world_def lit_def str_nat_digits)

lemma filter_outcome_example:
  "filter_outcome default_backend example_world linear_layer (1, 1, 1) state0 0 = []"
  "filter_outcome default_backend example_world linear_layer (1, 1, 1) state0 (Suc 0)
     = [([[[127]]], 1)]"
proof -
  have s0: "filter_start default_backend example_world linear_layer (1, 1, 1) state0 0 = state0"
    by (simp add: filter_start_def)
  show o0: "filter_outcome default_backend example_world linear_layer (1, 1, 1) state0 0 = []"
    by (simp only: filter_outcome_def s0 process_filter_dead fst_conv)
  have "filter_start default_backend example_world linear_layer (1, 1, 1) state0 (Suc 0)
      = snd (process_filter default_backend example_world linear_layer (1, 1, 1) 0 ([], state0))"
    by (simp add: filter_start_def)
  then have s1: "filter_start default_backend example_world linear_layer (1, 1, 1) state0 (Suc 0)
      = state0\<lparr>rng_pos := 1, iterate_calls := 1\<rparr>"
    by (simp only: process_filter_dead snd_conv)
  show "filter_outcome default_backend example_world linear_layer (1, 1, 1) state0 (Suc 0)
      = [([[[127]]], 1)]"
    by (simp only: filter_outcome_def s1 process_filter_live fst_conv)
qed

lemma kept_before_example:
  "kept_before default_backend example_world linear_layer (1, 1, 1) state0 (Suc 0) = 0"
proof -
  have "[0..<Suc 0] = [0]" by simp
  then show ?thesis
    by (simp only: kept_before_def filter.simps filter_outcome_example(1)) simp
qed

theorem file_names_use_position_among_kept_witness:
  "layer_type linear_layer = ''Conv2D'' \<and> is_ascii (layer_name linear_layer) \<and>
   Suc 0 < filter_cnt linear_layer \<and>
   filter_outcome default_backend example_world linear_layer (1, 1, 1) state0 0 = [] \<and>
   filter_outcome default_backend example_world linear_layer (1, 1, 1) state0 (Suc 0)
     = [([[[127]]], 1)] \<and>
   kept_before default_backend example_world linear_layer (1, 1, 1) state0 (Suc 0) = 0 \<and>
   files (snd (process_layers_loop default_backend example_world (1, 1, 1) (lit ''out'')
             [linear_layer] state0)) ! 0
     = (lit ''out/2017-01-01_00_00_00_000000_conv_0_1.0.png'', [[[127]]])"
proof -
  have c: "Suc 0 < filter_cnt linear_layer" by (simp add: linear_layer_def)
  have f: "files state0 = []" "clock_reads state0 = 0" by (simp_all add: state0_def)
  from file_names_use_position_among_kept [OF linear_layer_fields(1,3) c filter_outcome_example(2)
      kept_before_example [symmetric] refl, of "lit ''out''"]
  have "files (snd (process_layers_loop default_backend example_world (1, 1, 1) (lit ''out'')
             [linear_layer] state0)) ! 0
     = (file_name (lit ''out'') (now_strftime example_world 0) (lit ''conv'') 0
          (str_float example_world 1), [[[127]]])"
    unfolding f linear_layer_fields(2) by simp
  then have e: "files (snd (process_layers_loop default_backend example_world (1, 1, 1)
      (lit ''out'') [linear_layer] state0)) ! 0
     = (lit ''out/2017-01-01_00_00_00_000000_conv_0_1.0.png'', [[[127]]])"
    by (simp only: example_file_names(1))
  show ?thesis
    by (intro conjI linear_layer_fields(1,3) c filter_outcome_example kept_before_example e)
qed

text \<open>
  Claim C2 as stated puts the index of the filter within the layer into the name. Filter 0 of
  the example layer is skipped and filter 1 is kept: the one file written carries the number
  0, not 1.
\<close>

theorem file_name_filter_index_counterexample:
  "fst (process_filter default_backend example_world linear_layer (1, 1, 1) 0 ([], state0)) = [] \<and>
   fst (process_filter default_backend example_world linear_layer (1, 1, 1) (Suc 0)
          ([], state0\<lparr>rng_pos := 1, iterate_calls := 1\<rparr>)) = [([[[127]]], 1)] \<and>
   map fst (files (snd (process_layers default_backend example_world conv_model (lit ''out'')
                          state0)))
     = [lit ''out/2017-01-01_00_00_00_000000_conv_0_1.0.png''] \<and>
   map fst (files (snd (process_layers default_backend example_world conv_model (lit ''out'')
                          state0)))
     \<noteq> [file_name (lit ''out'') (now_strftime example_world 0) (lit ''conv'') (Suc 0)
           (str_float example_world 1)]"
proof -
  have a: "fst (process_filter default_backend example_world linear_layer (1, 1, 1) 0
      ([], state0)) = []"
    by (simp only: process_filter_dead fst_conv)
  have b: "fst (process_filter default_backend example_world linear_layer (1, 1, 1) (Suc 0)
      ([], state0\<lparr>rng_pos := 1, iterate_calls := 1\<rparr>)) = [([[[127]]], 1)]"
    by (simp only: process_filter_live fst_conv)
  have c: "map fst (files (snd (process_layers default_backend example_world conv_model
      (lit ''out'') state0))) = [lit ''out/2017-01-01_00_00_00_000000_conv_0_1.0.png'']"
    unfolding process_layers_conv_model example_file_names by simp
  have d: "lit ''out/2017-01-01_00_00_00_000000_conv_0_1.0.png''
      \<noteq> lit ''out/2017-01-01_00_00_00_000000_conv_1_1.0.png''"
    by (simp add: lit_def)
  from a b c d show ?thesis
    unfolding example_file_names by simp
qed

lemma process_layers_loop_append:
  "process_layers_loop K W shp out_dir (xs @ ys) s =
     (case process_layers_loop K W shp out_dir xs s of
        (None, s') \<Rightarrow> process_layers_loop K W shp out_dir ys s'
      | (Some e, s') \<Rightarrow> (Some e, s'))"
  by (induction xs arbitrary: s) (simp_all split: prod.splits)

lemma process_layers_loop_passes:
  "\<forall>p \<in> set pre. is_ascii (layer_name p) \<and> layer_type p \<noteq> ''Model'' \<and>
      layer_type p \<noteq> ''Sequential'' \<Longrightarrow>
   fst (process_layers_loop K W shp out_dir pre s) = None"
  by (induction pre arbitrary: s) (simp_all split: prod.splits)

lemma process_filter_calls_ge:
  "Suc (iterate_calls (snd acc)) \<le> iterate_calls (snd (process_filter K W l shp f acc))"
proof -
  obtain kept s where acc: "acc = (kept, s)" by (cases acc)
  have "snd (ascent (iterate K l f) 20 (random_start W (rng_pos s) shp)) \<noteq> []"
    by (rule ascent_nonempty) simp
  then have "Suc 0 \<le> length (snd (ascent (iterate K l f) 20 (random_start W (rng_pos s) shp)))"
    by (cases "snd (ascent (iterate K l f) 20 (random_start W (rng_pos s) shp))") simp_all
  then show ?thesis unfolding acc by (simp add: process_filter_calls)
qed

lemma fold_process_filter_calls:
  "iterate_calls (snd acc) + length fs
     \<le> iterate_calls (snd (fold (process_filter K W l shp) fs acc))"
proof (induction fs arbitrary: acc)
  case Nil
  show ?case by simp
next
  case (Cons f fs)
  from Cons.IH [of "process_filter K W l shp f acc"] process_filter_calls_ge [of acc K W l shp f]
  show ?case by simp
qed

lemma process_conv_2d_layer_calls:
  "iterate_calls s + filter_cnt l \<le> iterate_calls (snd (process_conv_2d_layer K W l shp s))"
  using fold_process_filter_calls [of "([], s)" "[0..<filter_cnt l]" K W l shp]
  by (simp add: process_conv_2d_layer_def)

lemma fold_save_image_calls:
  "iterate_calls (fold (save_image W out_dir name) es s) = iterate_calls s"
  by (induction es arbitrary: s) (simp_all add: save_image_def split: prod.splits)

lemma save_images_calls: "iterate_calls (save_images W out_dir name kept s) = iterate_calls s"
  by (simp add: save_images_def fold_save_image_calls)

lemma process_layers_loop_calls:
  "iterate_calls s \<le> iterate_calls (snd (process_layers_loop K W shp out_dir ls s))"
proof (induction ls arbitrary: s)
  case Nil
  show ?case by simp
next
  case (Cons l ls)
  obtain kept s1 where p: "process_conv_2d_layer K W l shp s = (kept, s1)"
    by (cases "process_conv_2d_layer K W l shp s")
  from process_conv_2d_layer_calls [of s l K W shp] p have "iterate_calls s \<le> iterate_calls s1"
    by simp
  with Cons.IH [of "save_images W out_dir (layer_name l) kept s1"] Cons.IH [of s]
  show ?case by (simp add: p save_images_calls)
qed

lemma process_layers_loop_busy:
  assumes "\<forall>p \<in> set pre. is_ascii (layer_name p) \<and> layer_type p \<noteq> ''Model'' \<and>
      layer_type p \<noteq> ''Sequential''"
    and "\<exists>p \<in> set pre. layer_type p = ''Conv2D'' \<and> 0 < filter_cnt p"
  shows "iterate_calls s < iterate_calls (snd (process_layers_loop K W shp out_dir pre s))"
  using assms
proof (induction pre arbitrary: s)
  case Nil
  then show ?case by simp
next
  case (Cons l ls)
  obtain kept s1 where p: "process_conv_2d_layer K W l shp s = (kept, s1)"
    by (cases "process_conv_2d_layer K W l shp s")
  let ?s2 = "save_images W out_dir (layer_name l) kept s1"
  have pass: "is_ascii (layer_name l)" "layer_type l \<noteq> ''Model''" "layer_type l \<noteq> ''Sequential''"
    using Cons.prems(1) by simp_all
  have rest: "\<forall>p \<in> set ls. is_ascii (layer_name p) \<and> layer_type p \<noteq> ''Model'' \<and>
      layer_type p \<noteq> ''Sequential''"
    using Cons.prems(1) by simp
  show ?case
  proof (cases "layer_type l = ''Conv2D''")
    case conv: True
    have run: "process_layers_loop K W shp out_dir (l # ls) s
        = process_layers_loop K W shp out_dir ls ?s2"
      using pass conv by (simp add: p)
    have c1: "iterate_calls s + filter_cnt l \<le> iterate_calls ?s2"
      using process_conv_2d_layer_calls [of s l K W shp] p by (simp add: save_images_calls)
    show ?thesis
    proof (cases "0 < filter_cnt l")
      case True
      with c1 have "iterate_calls s < iterate_calls ?s2" by simp
      with process_layers_loop_calls [of ?s2 K W shp out_dir ls] show ?thesis
        unfolding run by simp
    next
      case False
      with Cons.prems(2) conv have "\<exists>p \<in> set ls. layer_type p = ''Conv2D'' \<and> 0 < filter_cnt p"
        by auto
      from Cons.IH [OF rest this, of ?s2] c1 show ?thesis unfolding run by simp
    qed
  next
    case other: False
    have run: "process_layers_loop K W shp out_dir (l # ls) s
        = process_layers_loop K W shp out_dir ls s"
      using pass other by simp
    from Cons.prems(2) other have "\<exists>p \<in> set ls. layer_type p = ''Conv2D'' \<and> 0 < filter_cnt p"
      by auto
    from Cons.IH [OF rest this, of s] show ?thesis unfolding run .
  qed
qed

lemma process_layers_loop_idle:
  "\<forall>p \<in> set pre. is_ascii (layer_name p) \<and> layer_type p \<noteq> ''Model'' \<and>
      layer_type p \<noteq> ''Sequential'' \<and> (layer_type p = ''Conv2D'' \<longrightarrow> filter_cnt p = 0) \<Longrightarrow>
   process_layers_loop K W shp out_dir pre s = (None, s)"
  by (induction pre arbitrary: s) (simp_all add: process_conv_2d_layer_def save_images_def)

text \<open>
  Claim C8, as the code has it. The name of a layer is checked when the loop over the layers
  reaches it. If a layer with a name outside ASCII comes after layers with ASCII names, and
  no layer up to it is a nested model, the run ends with \<^verbatim>\<open>AssertionError\<close> in the
  state that the layers before it have left: nothing is done for that layer or any later
  one, and the earlier layers have been processed in full. When no earlier layer is a
  convolution layer with at least one filter, the run ends in the state it started in; when
  one is, \<^verbatim>\<open>iterate\<close> has been called before the run ends.
\<close>

theorem non_ascii_name_aborts_at_its_layer:
  assumes "layers m = pre @ l # post"
    and "\<forall>p \<in> set pre. is_ascii (layer_name p) \<and> layer_type p \<noteq> ''Model'' \<and>
           layer_type p \<noteq> ''Sequential''"
    and "\<not> is_ascii (layer_name l)"
    and "layer_type l \<noteq> ''Model''" and "layer_type l \<noteq> ''Sequential''"
  shows "process_layers K W m out_dir s
           = (Some AssertionError, snd (process_layers_loop K W (input_shape m) out_dir pre s)) \<and>
         ((\<forall>p \<in> set pre. layer_type p = ''Conv2D'' \<longrightarrow> filter_cnt p = 0) \<longrightarrow>
            process_layers K W m out_dir s = (Some AssertionError, s)) \<and>
         ((\<exists>p \<in> set pre. layer_type p = ''Conv2D'' \<and> 0 < filter_cnt p) \<longrightarrow>
            iterate_calls s < iterate_calls (snd (process_layers K W m out_dir s)))"
proof -
  have none: "fst (process_layers_loop K W (input_shape m) out_dir pre s) = None"
    using assms(2) by (rule process_layers_loop_passes)
  have stop: "process_layers_loop K W (input_shape m) out_dir (l # post) s' = (Some AssertionError, s')"
    for s' using assms(3,4,5) by simp
  have main: "process_layers K W m out_dir s
      = (Some AssertionError, snd (process_layers_loop K W (input_shape m) out_dir pre s))"
  proof -
    obtain s1 where pre: "process_layers_loop K W (input_shape m) out_dir pre s = (None, s1)"
      using none by (cases "process_layers_loop K W (input_shape m) out_dir pre s") simp
    have "process_layers K W m out_dir s
        = process_layers_loop K W (input_shape m) out_dir (l # post) s1"
      by (simp only: process_layers_def assms(1) process_layers_loop_append pre
          prod.case option.case)
    then show ?thesis by (simp only: stop pre snd_conv)
  qed
  have idle: "process_layers_loop K W (input_shape m) out_dir pre s = (None, s)"
    if "\<forall>p \<in> set pre. layer_type p = ''Conv2D'' \<longrightarrow> filter_cnt p = 0"
    using assms(2) that by (intro process_layers_loop_idle) blast
  have busy: "iterate_calls s < iterate_calls (snd (process_layers K W m out_dir s))"
    if "\<exists>p \<in> set pre. layer_type p = ''Conv2D'' \<and> 0 < filter_cnt p"
    unfolding main snd_conv using assms(2) that by (rule process_layers_loop_busy)
  from main idle busy show ?thesis by simp
qed

lemma accented_layer_fields:
  "\<not> is_ascii (layer_name accented_layer)" "layer_type accented_layer \<noteq> ''Model''"
  "layer_type accented_layer \<noteq> ''Sequential''"
  by (simp_all add: accented_layer_def linear_layer_def is_ascii_def)

lemma process_layers_loop_linear:
  "process_layers_loop default_backend example_world (1, 1, 1) (lit ''out'') [linear_layer] state0
     = (None, \<lparr>rng_pos = 2, clock_reads = 1, iterate_calls = 21,
          files = [(file_name (lit ''out'') (now_strftime example_world 0) (lit ''conv'') 0
                      (str_float example_world 1), [[[127]]])]\<rparr>)"
  using process_layers_conv_model by (simp add: process_layers_def conv_model_def)

theorem non_ascii_name_aborts_at_its_layer_witness:
  "layers accented_model = [linear_layer] @ accented_layer # [] \<and>
   list_all (\<lambda>p. is_ascii (layer_name p) \<and> layer_type p \<noteq> ''Model'' \<and>
      layer_type p \<noteq> ''Sequential'') [linear_layer] \<and>
   \<not> is_ascii (layer_name accented_layer) \<and>
   (\<exists>p \<in> set [linear_layer]. layer_type p = ''Conv2D'' \<and> 0 < filter_cnt p) \<and>
   process_layers default_backend example_world accented_model (lit ''out'') state0
     = (Some AssertionError,
        snd (process_layers_loop default_backend example_world (1, 1, 1) (lit ''out'')
               [linear_layer] state0)) \<and>
   iterate_calls state0
     < iterate_calls (snd (process_layers default_backend example_world accented_model
         (lit ''out'') state0)) \<and>
   layers accented_only_model = [] @ accented_layer # [] \<and>
   process_layers default_backend example_world accented_only_model (lit ''out'') state0
     = (Some AssertionError, state0)"
proof -
  have a: "layers accented_model = [linear_layer] @ accented_layer # []"
    by (simp add: accented_model_def)
  have b: "\<forall>p \<in> set [linear_layer]. is_ascii (layer_name p) \<and> layer_type p \<noteq> ''Model'' \<and>
      layer_type p \<noteq> ''Sequential''"
    by (simp add: linear_layer_fields)
  have c: "layers accented_only_model = [] @ accented_layer # []"
    by (simp add: accented_only_model_def)
  have d: "\<forall>p \<in> set ([] :: layer list). is_ascii (layer_name p) \<and> layer_type p \<noteq> ''Model'' \<and>
      layer_type p \<noteq> ''Sequential''"
    by simp
  have e: "\<exists>p \<in> set [linear_layer]. layer_type p = ''Conv2D'' \<and> 0 < filter_cnt p"
    by (simp add: linear_layer_def)
  have i: "input_shape accented_model = (1, 1, 1)" by (simp add: accented_model_def)
  have f: "\<forall>p \<in> set ([] :: layer list). layer_type p = ''Conv2D'' \<longrightarrow> filter_cnt p = 0"
    by simp
  have g: "list_all (\<lambda>p. is_ascii (layer_name p) \<and> layer_type p \<noteq> ''Model'' \<and>
      layer_type p \<noteq> ''Sequential'') [linear_layer]"
    using b by (simp only: list_all_iff)
  note t1 = non_ascii_name_aborts_at_its_layer [OF a b accented_layer_fields,
      of default_backend example_world "lit ''out''" state0, unfolded i]
  note t2 = non_ascii_name_aborts_at_its_layer [OF c d accented_layer_fields,
      of default_backend example_world "lit ''out''" state0]
  from t1 have r1: "process_layers default_backend example_world accented_model (lit ''out'') state0
     = (Some AssertionError,
        snd (process_layers_loop default_backend example_world (1, 1, 1) (lit ''out'')
               [linear_layer] state0))"
    by blast
  from t1 e have r2: "iterate_calls state0
     < iterate_calls (snd (process_layers default_backend example_world accented_model
         (lit ''out'') state0))"
    by blast
  from t2 f have r3: "process_layers default_backend example_world accented_only_model
      (lit ''out'') state0 = (Some AssertionError, state0)"
    by blast
  show ?thesis by (intro conjI a g accented_layer_fields(1) e r1 r2 c r3)
qed

lemma process_layers_accented_model:
  "process_layers default_backend example_world accented_model (lit ''out'') state0
     = (Some AssertionError, \<lparr>rng_pos = 2, clock_reads = 1, iterate_calls = 21,
          files = [(file_name (lit ''out'') (now_strftime example_world 0) (lit ''conv'') 0
                      (str_float example_world 1), [[[127]]])]\<rparr>)"
proof -
  have "process_layers default_backend example_world accented_model (lit ''out'') state0
      = process_layers_loop default_backend example_world (1, 1, 1) (lit ''out'')
          ([linear_layer] @ [accented_layer]) state0"
    by (simp add: process_layers_def accented_model_def)
  also have "\<dots> = process_layers_loop default_backend example_world (1, 1, 1) (lit ''out'')
      [accented_layer] \<lparr>rng_pos = 2, clock_reads = 1, iterate_calls = 21,
          files = [(file_name (lit ''out'') (now_strftime example_world 0) (lit ''conv'') 0
                      (str_float example_world 1), [[[127]]])]\<rparr>"
    by (simp only: process_layers_loop_append process_layers_loop_linear prod.case option.case)
  also have "\<dots> = (Some AssertionError, \<lparr>rng_pos = 2, clock_reads = 1, iterate_calls = 21,
          files = [(file_name (lit ''out'') (now_strftime example_world 0) (lit ''conv'') 0
                      (str_float example_world 1), [[[127]]])]\<rparr>)"
    using accented_layer_fields by simp
  finally show ?thesis .
qed

text \<open>
  Claim C8 as stated has the run end before any ascent iteration. For the example layer
  followed by the accented layer the run ends with \<^verbatim>\<open>AssertionError\<close> after 21 calls
  of \<^verbatim>\<open>iterate\<close> and one file written.
\<close>

theorem non_ascii_name_after_ascent_counterexample:
  "\<not> is_ascii (layer_name accented_layer) \<and> accented_layer \<in> set (layers accented_model) \<and>
   fst (process_layers default_backend example_world accented_model (lit ''out'') state0)
     = Some AssertionError \<and>
   iterate_calls (snd (process_layers default_backend example_world accented_model (lit ''out'')
                         state0)) = 21 \<and>
   length (files (snd (process_layers default_backend example_world accented_model (lit ''out'')
                         state0))) = 1"
  unfolding process_layers_accented_model
  by (simp add: accented_layer_fields accented_model_def)

end
